theory Spec2Isabelle
  imports Main "HOL-Library.Word" "HOL-Library.AList"
begin

section \<open>Outcomes of a call\<close>

text \<open>
  A call in the header \<^verbatim>\<open>json_export.h\<close> ends in one of three ways, and the model keeps
  them apart:
  \<^item> a normal return: \<open>Ok x\<close>;
  \<^item> a C++ exception raised by the JSON library (a missing key in \<^verbatim>\<open>at\<close>, a node of
    the wrong kind) or an error result of the registry: \<open>Err e\<close>;
  \<^item> a dereference of a null pointer, which no caller can catch: \<open>Fault\<close>.
  The first five errors are the taxonomy of the specification (section 7);
  \<open>MissingFieldError n\<close> is what \<^verbatim>\<open>js.at(n)\<close> raises when the object has no key \<open>n\<close>,
  and \<open>JsonTypeError\<close> is the JSON library's exception for a node of the wrong kind.
  The header's \<^verbatim>\<open>ExpectedAny\<close> carries an error as a string; the model keeps its kind.
\<close>

datatype error =
    UnregisteredTypeError
  | UnknownTypeNameError
  | MissingTypeTagError
  | MissingFieldError string
  | TypeMismatchError
  | JsonTypeError

datatype 'a outcome = Ok 'a | Err error | Fault

text \<open>Sequencing: an exception or a fault in the first call skips the rest.\<close>

definition and_then :: "'a outcome \<Rightarrow> ('a \<Rightarrow> 'b outcome) \<Rightarrow> 'b outcome" where
  "and_then r f = (case r of Ok x \<Rightarrow> f x | Err e \<Rightarrow> Err e | Fault \<Rightarrow> Fault)"

section \<open>The JSON tree\<close>

text \<open>
  Modelled from the spec: \<^verbatim>\<open>nlohmann::json\<close> comes from
  \<^verbatim>\<open>behaviortree_cpp/contrib/json.hpp\<close>, which the header only includes. The
  specification (sections 1 and 6) asks of it object nodes with named fields that can be
  built and read, scalar nodes for primitive field types, and the raw field
  \<^verbatim>\<open>"__type"\<close>. A floating-point number node keeps the 64 bits of the \<^verbatim>\<open>double\<close> it
  was built from; no arithmetic is done on it. An object is the list of its members,
  every key once, read by key. Integer number nodes are outside this development.
\<close>

datatype json =
    JNull
  | JBoolean bool
  | JNumberFloat "64 word"
  | JString string
  | JArray "json list"
  | JObject "(string \<times> json) list"

text \<open>
  Modelled from the spec: \<^verbatim>\<open>js.contains(key)\<close>, true exactly for an object that has the
  key.
\<close>

definition js_contains :: "json \<Rightarrow> string \<Rightarrow> bool" where
  "js_contains js key =
     (case js of
        JObject members \<Rightarrow> (case map_of members key of None \<Rightarrow> False | Some e \<Rightarrow> True)
      | _ \<Rightarrow> False)"

text \<open>
  Modelled from the spec: \<^verbatim>\<open>js.at(key)\<close> on a constant node, the checked read of a
  named field. A missing key raises (the hard failure of section 4.1); so does a node
  that is no object.
\<close>

definition js_at :: "json \<Rightarrow> string \<Rightarrow> json outcome" where
  "js_at js key =
     (case js of
        JObject members \<Rightarrow>
          (case map_of members key of
             None \<Rightarrow> Err (MissingFieldError key)
           | Some e \<Rightarrow> Ok e)
      | _ \<Rightarrow> Err JsonTypeError)"

text \<open>
  Modelled from the spec: \<^verbatim>\<open>js[key]\<close> on a mutable node, the reference through which a
  named field is built. A null node becomes an empty object first; a key that is not
  there yet is added with a null element. The model takes the write \<open>f\<close> that the source
  does through the reference (from the element before to the element after) and returns
  the node after it. A node that is neither null nor an object raises.
\<close>

definition js_subscript :: "json \<Rightarrow> string \<Rightarrow> (json \<Rightarrow> json outcome) \<Rightarrow> json outcome" where
  "js_subscript js key f =
     (case js of
        JNull \<Rightarrow> and_then (f JNull) (\<lambda>e. Ok (JObject [(key, e)]))
      | JObject members \<Rightarrow>
          and_then (f (case map_of members key of None \<Rightarrow> JNull | Some e \<Rightarrow> e))
            (\<lambda>e. Ok (JObject (AList.update key e members)))
      | _ \<Rightarrow> Err JsonTypeError)"

text \<open>
  Modelled from the spec: \<^verbatim>\<open>js[key]\<close> on a constant node, the unchecked read. The source
  calls it only behind \<^verbatim>\<open>contains\<close>.
\<close>

definition js_subscript_const :: "json \<Rightarrow> string \<Rightarrow> json outcome" where
  "js_subscript_const js key =
     (case js of
        JObject members \<Rightarrow> (case map_of members key of None \<Rightarrow> Fault | Some e \<Rightarrow> Ok e)
      | _ \<Rightarrow> Err JsonTypeError)"

text \<open>
  Modelled from the spec: the conversion \<^verbatim>\<open>std::string(js)\<close> of a node, which raises on
  a node that is no string.
\<close>

definition js_get_string :: "json \<Rightarrow> string outcome" where
  "js_get_string js = (case js of JString s \<Rightarrow> Ok s | _ \<Rightarrow> Err JsonTypeError)"

text \<open>
  The type tag of a node: the string under \<^verbatim>\<open>"__type"\<close>, when the node is an object
  that has one.
\<close>

definition type_tag :: "json \<Rightarrow> string option" where
  "type_tag source =
     (case source of
        JObject members \<Rightarrow>
          (case map_of members ''__type'' of Some (JString s) \<Rightarrow> Some s | _ \<Rightarrow> None)
      | _ \<Rightarrow> None)"

section \<open>C++ values, types and the erased container\<close>

text \<open>
  The values the registry handles: scalars of the primitive field types and structs, a
  struct being the list of its members in declaration order. A \<^verbatim>\<open>double\<close> is its 64
  bits.
\<close>

datatype cval =
    CBool bool
  | CDouble "64 word"
  | CString string
  | CStruct "cval list"

text \<open>\<^verbatim>\<open>std::type_index\<close>: an opaque identifier, equal exactly for equal types.\<close>

type_synonym type_index = nat

text \<open>
  What \<^verbatim>\<open>addConverter<T>\<close> uses of its template argument \<open>T\<close>: \<^verbatim>\<open>typeid(T)\<close>,
  \<^verbatim>\<open>BT::demangle(typeid(T))\<close>, the value \<^verbatim>\<open>T{}\<close>, and the overloads
  \<^verbatim>\<open>to_json(json&, const T&)\<close> and \<^verbatim>\<open>from_json(const json&, T&)\<close> that argument-dependent
  lookup finds for \<open>T\<close>. \<open>to_json\<close> takes the node before the call and returns the node
  after it. \<open>from_json\<close> returns the value its second argument holds after the call; the
  object it is given (\<^verbatim>\<open>T value;\<close>, never read before it is assigned) is left out.
\<close>

record cpp_type =
  typeid :: type_index
  demangle :: string
  default_ctor :: cval
  to_json :: "json \<Rightarrow> cval \<Rightarrow> json outcome"
  from_json :: "json \<Rightarrow> cval outcome"

text \<open>
  Modelled from the spec: \<^verbatim>\<open>BT::Any\<close> comes from
  \<^verbatim>\<open>behaviortree_cpp/utils/safe_any.hpp\<close>, which the header only includes. The
  specification (sections 1 and 6) asks of it: built from a value of any type, it
  answers its runtime type, and casts back to exactly that type or fails. The model
  keeps the TypeId of the stored value beside the value.
\<close>

datatype Any = Any type_index cval

text \<open>
  Modelled from the spec: the runtime type of the value an \<^verbatim>\<open>Any\<close> holds (\<open>typeOf\<close> in
  section 1 of the specification), from \<^verbatim>\<open>safe_any.hpp\<close>.
\<close>

fun any_type :: "Any \<Rightarrow> type_index" where
  "any_type (Any t v) = t"

text \<open>
  Modelled from the spec: \<^verbatim>\<open>castPtr<T>()\<close> of \<^verbatim>\<open>safe_any.hpp\<close>, the cast back to exactly
  the stored type (\<open>as<T>\<close> in section 1 of the specification). It returns a pointer, so
  its failure is the null pointer: \<open>None\<close>.
\<close>

fun castPtr :: "Any \<Rightarrow> type_index \<Rightarrow> cval option" where
  "castPtr (Any t v) t' = (if t = t' then Some v else None)"

section \<open>Primitive field types\<close>

text \<open>
  The JSON library has its own \<^verbatim>\<open>to_json\<close> and \<^verbatim>\<open>from_json\<close> (\<^verbatim>\<open>get_to\<close>) for
  \<^verbatim>\<open>bool\<close>, \<^verbatim>\<open>double\<close> and \<^verbatim>\<open>std::string\<close>; they are in \<^verbatim>\<open>contrib/json.hpp\<close>, which
  the header only includes. Writing replaces the node by the scalar; reading raises on a
  node of another kind. C++ typing excludes a value of another type as the argument of
  \<open>to_json\<close>; the model answers \<open>Fault\<close> there.
\<close>

text \<open>
  Modelled from the spec: the library's converters for \<^verbatim>\<open>bool\<close> (scalar get and set for
  primitive field types, section 6).
\<close>

definition bool_type :: cpp_type where
  "bool_type =
     \<lparr> typeid = 0, demangle = ''bool'', default_ctor = CBool False,
       to_json = (\<lambda>j v. case v of CBool b \<Rightarrow> Ok (JBoolean b) | _ \<Rightarrow> Fault),
       from_json = (\<lambda>j. case j of JBoolean b \<Rightarrow> Ok (CBool b) | _ \<Rightarrow> Err JsonTypeError) \<rparr>"

text \<open>
  Modelled from the spec: the library's converters for \<^verbatim>\<open>double\<close> (scalar get and set
  for primitive field types, section 6).
\<close>

definition double_type :: cpp_type where
  "double_type =
     \<lparr> typeid = 1, demangle = ''double'', default_ctor = CDouble 0,
       to_json = (\<lambda>j v. case v of CDouble d \<Rightarrow> Ok (JNumberFloat d) | _ \<Rightarrow> Fault),
       from_json = (\<lambda>j. case j of JNumberFloat d \<Rightarrow> Ok (CDouble d) | _ \<Rightarrow> Err JsonTypeError) \<rparr>"

text \<open>
  Modelled from the spec: the library's converters for \<^verbatim>\<open>std::string\<close> (scalar get and
  set for primitive field types, section 6).
\<close>

definition string_type :: cpp_type where
  "string_type =
     \<lparr> typeid = 2, demangle = ''std::string'', default_ctor = CString [],
       to_json = (\<lambda>j v. case v of CString s \<Rightarrow> Ok (JString s) | _ \<Rightarrow> Fault),
       from_json = (\<lambda>j. case j of JString s \<Rightarrow> Ok (CString s) | _ \<Rightarrow> Err JsonTypeError) \<rparr>"

section \<open>The macro \<^verbatim>\<open>BT_JSON_CONVERTER\<close>\<close>

text \<open>
  The body the type's author writes after \<^verbatim>\<open>BT_JSON_CONVERTER(Type, value)\<close> is the
  function \<^verbatim>\<open>_JsonTypeDefinition(Type& value, AddField& add_field)\<close>: one call
  \<^verbatim>\<open>add_field(name, &value.member)\<close> per field. It is modelled by the list of those
  calls in order, each with the name and the static type of the member it points at; the
  i-th call points at the i-th member of the struct.
\<close>

type_synonym field_decls = "(string \<times> cpp_type) list"

text \<open>
  \<^verbatim>\<open>to_json\<close> of the macro walks the declaration with
  \<^verbatim>\<open>op = [&js](name, val) { to_json(js[name], *val); }\<close> and then stamps
  \<^verbatim>\<open>js["__type"] = #Type\<close>. (Its parameter \<^verbatim>\<open>add_type_name\<close> is never read.) A struct
  with fewer members than declared fields cannot be typed in C++; the model answers
  \<open>Fault\<close> there.
\<close>

fun to_json_fields :: "field_decls \<Rightarrow> cval list \<Rightarrow> json \<Rightarrow> json outcome" where
  "to_json_fields [] ms js = Ok js"
| "to_json_fields ((name, ft) # fs) (m # ms) js =
     and_then (js_subscript js name (\<lambda>e. to_json ft e m)) (to_json_fields fs ms)"
| "to_json_fields ((name, ft) # fs) [] js = Fault"

definition macro_to_json :: "string \<Rightarrow> field_decls \<Rightarrow> json \<Rightarrow> cval \<Rightarrow> json outcome" where
  "macro_to_json type_str decl js p =
     (case p of
        CStruct ms \<Rightarrow>
          and_then (to_json_fields decl ms js)
            (\<lambda>js'. js_subscript js' ''__type'' (\<lambda>e. Ok (JString type_str)))
      | _ \<Rightarrow> Fault)"

text \<open>
  \<^verbatim>\<open>from_json\<close> of the macro walks the declaration with
  \<^verbatim>\<open>op = [&js](name, v) { js.at(name).get_to(*v); }\<close>: the first field whose name is
  missing, or whose element does not convert, raises and ends the walk.
\<close>

fun from_json_fields :: "field_decls \<Rightarrow> json \<Rightarrow> cval list outcome" where
  "from_json_fields [] js = Ok []"
| "from_json_fields ((name, ft) # fs) js =
     and_then (js_at js name) (\<lambda>e.
     and_then (from_json ft e) (\<lambda>v.
     and_then (from_json_fields fs js) (\<lambda>vs. Ok (v # vs))))"

definition macro_from_json :: "field_decls \<Rightarrow> json \<Rightarrow> cval outcome" where
  "macro_from_json decl js = and_then (from_json_fields decl js) (\<lambda>vs. Ok (CStruct vs))"

text \<open>
  A type declared through the macro: \<open>type_str\<close> is \<^verbatim>\<open>#Type\<close>, the macro's first argument
  as written.
\<close>

definition BT_JSON_CONVERTER ::
  "type_index \<Rightarrow> string \<Rightarrow> cval \<Rightarrow> string \<Rightarrow> field_decls \<Rightarrow> cpp_type" where
  "BT_JSON_CONVERTER tid dname dflt type_str decl =
     \<lparr> typeid = tid, demangle = dname, default_ctor = dflt,
       to_json = macro_to_json type_str decl,
       from_json = macro_from_json decl \<rparr>"

section \<open>The registry \<^verbatim>\<open>JsonExporter\<close>\<close>

text \<open>
  \<^verbatim>\<open>std::unordered_map\<close>: every key at most once. \<^verbatim>\<open>insert\<close> adds the pair only when
  the key is not there yet, and leaves the map as it is otherwise.
\<close>

type_synonym ('k, 'v) unordered_map = "('k \<times> 'v) list"

definition umap_find :: "'k \<Rightarrow> ('k, 'v) unordered_map \<Rightarrow> 'v option" where
  "umap_find k m = map_of m k"

definition umap_insert :: "'k \<times> 'v \<Rightarrow> ('k, 'v) unordered_map \<Rightarrow> ('k, 'v) unordered_map" where
  "umap_insert kv m = (case map_of m (fst kv) of None \<Rightarrow> m @ [kv] | Some v \<Rightarrow> m)"

definition umap_count :: "'k \<Rightarrow> ('k, 'v) unordered_map \<Rightarrow> nat" where
  "umap_count k m = length (filter (\<lambda>kv. fst kv = k) m)"

type_synonym ToJonConverter = "Any \<Rightarrow> json \<Rightarrow> json outcome"
type_synonym FromJonConverter = "json \<Rightarrow> Any outcome"

text \<open>
  The three tables of the class. The source's member names end in an underscore
  (\<^verbatim>\<open>to_json_converters_\<close>, \<^verbatim>\<open>from_json_converters_\<close>, \<^verbatim>\<open>type_names_\<close>),
  which a name of the logic cannot; it is dropped.
\<close>

record JsonExporter =
  to_json_converters :: "(type_index, ToJonConverter) unordered_map"
  from_json_converters :: "(type_index, FromJonConverter) unordered_map"
  type_names :: "(string, type_index) unordered_map"

text \<open>The \<^verbatim>\<open>static JsonExporter global_instance\<close> of \<^verbatim>\<open>get()\<close>, as constructed.\<close>

definition global_instance :: JsonExporter where
  "global_instance =
     \<lparr> to_json_converters = [], from_json_converters = [], type_names = [] \<rparr>"

text \<open>
  The encoder closure of \<^verbatim>\<open>addConverter<T>\<close>:
  \<^verbatim>\<open>to_json(dst, *const_cast<BT::Any&>(entry).castPtr<T>())\<close>. The pointer is dereferenced
  as it comes back.
\<close>

definition to_converter :: "cpp_type \<Rightarrow> ToJonConverter" where
  "to_converter T entry dst =
     (case castPtr entry (typeid T) of
        None \<Rightarrow> Fault
      | Some p \<Rightarrow> to_json T dst p)"

text \<open>
  The decoder closure: \<^verbatim>\<open>T value; from_json(dst, value); return BT::Any(value);\<close>.
\<close>

definition from_converter :: "cpp_type \<Rightarrow> FromJonConverter" where
  "from_converter T dst = and_then (from_json T dst) (\<lambda>v. Ok (Any (typeid T) v))"

text \<open>
  \<^verbatim>\<open>addConverter<T>()\<close>, statement by statement. The result is the registry after the
  call and how the call ended: an exception of \<^verbatim>\<open>nlohmann::json const js = T{}\<close> or of
  \<^verbatim>\<open>std::string(js["__type"])\<close> leaves the function after the encoder was inserted and
  before anything else was.
\<close>

definition addConverter :: "cpp_type \<Rightarrow> JsonExporter \<Rightarrow> JsonExporter \<times> unit outcome" where
  "addConverter T self =
     (let self1 = self\<lparr> to_json_converters :=
                   umap_insert (typeid T, to_converter T) (to_json_converters self) \<rparr>
      in case to_json T JNull (default_ctor T) of
           Err e \<Rightarrow> (self1, Err e)
         | Fault \<Rightarrow> (self1, Fault)
         | Ok js \<Rightarrow>
            (case (if js_contains js ''__type''
                   then and_then (js_subscript_const js ''__type'') (\<lambda>e.
                        and_then (js_get_string e) (\<lambda>s.
                        Ok (umap_insert (s, typeid T) (type_names self1))))
                   else Ok (type_names self1)) of
               Err e \<Rightarrow> (self1, Err e)
             | Fault \<Rightarrow> (self1, Fault)
             | Ok names \<Rightarrow>
                (self1\<lparr> type_names := umap_insert (demangle T, typeid T) names,
                        from_json_converters :=
                          umap_insert (typeid T, from_converter T) (from_json_converters self1) \<rparr>,
                 Ok ())))"

text \<open>
  \<^verbatim>\<open>RegisterJsonDefinition<T>()\<close> calls \<^verbatim>\<open>addConverter<T>()\<close> on the registry; a
  sequence of registrations is the fold of these calls, whatever way each one ended.
\<close>

definition RegisterJsonDefinition :: "cpp_type \<Rightarrow> JsonExporter \<Rightarrow> JsonExporter" where
  "RegisterJsonDefinition T self = fst (addConverter T self)"

definition register_all :: "cpp_type list \<Rightarrow> JsonExporter \<Rightarrow> JsonExporter" where
  "register_all Ts self = fold RegisterJsonDefinition Ts self"

text \<open>
  The member template
  \<^verbatim>\<open>template <typename T> void toJson(const T& val, nlohmann::json& dst) const { dst = val; }\<close>:
  the node that \<^verbatim>\<open>to_json\<close> builds from \<open>val\<close>, starting from a fresh node, replaces
  \<open>dst\<close>. The registry takes no part in it.
\<close>

definition toJson_val :: "cpp_type \<Rightarrow> cval \<Rightarrow> json \<Rightarrow> json outcome" where
  "toJson_val T val dst = to_json T JNull val"

text \<open>
  Modelled from the spec: the bodies of \<^verbatim>\<open>toJson(any, destination)\<close> and of the two
  \<^verbatim>\<open>fromJson\<close> are in \<^verbatim>\<open>json_export.cpp\<close>; the header declares them, all three
  \<^verbatim>\<open>const\<close>. Section 4.3: encode reads the value's TypeId, looks it up in the codec
  table, fails with \<open>UnregisteredTypeError\<close> when it is absent (the
  \<^verbatim>\<open>return false\<close> of the header's comment), and otherwise invokes the stored encoder
  and returns its node: \<open>Ok node\<close> is \<^verbatim>\<open>return true\<close> with \<^verbatim>\<open>destination\<close> holding
  \<open>node\<close>.
\<close>

definition toJson :: "JsonExporter \<Rightarrow> Any \<Rightarrow> json \<Rightarrow> json outcome" where
  "toJson self any destination =
     (case umap_find (any_type any) (to_json_converters self) of
        None \<Rightarrow> Err UnregisteredTypeError
      | Some conv \<Rightarrow> conv any destination)"

text \<open>
  Modelled from the spec: section 4.4, direct dispatch. The overload
  \<^verbatim>\<open>fromJson(source, type)\<close>, whose body is in \<^verbatim>\<open>json_export.cpp\<close>, fails with
  \<open>UnregisteredTypeError\<close> when the TypeId is absent from the codec table and otherwise
  invokes the stored decoder.
\<close>

definition fromJson_type :: "JsonExporter \<Rightarrow> json \<Rightarrow> type_index \<Rightarrow> Any outcome" where
  "fromJson_type self source t =
     (case umap_find t (from_json_converters self) of
        None \<Rightarrow> Err UnregisteredTypeError
      | Some conv \<Rightarrow> conv source)"

text \<open>
  Modelled from the spec: section 4.4, type-inferred dispatch. The overload
  \<^verbatim>\<open>fromJson(source)\<close>, whose body is in \<^verbatim>\<open>json_export.cpp\<close>, requires an object with
  a \<^verbatim>\<open>"__type"\<close> string field and fails with
  \<open>MissingTypeTagError\<close> without one; it looks the tag up in the name table, fails with
  \<open>UnknownTypeNameError\<close> when it is absent, and otherwise proceeds as the direct
  dispatch.
\<close>

definition fromJson :: "JsonExporter \<Rightarrow> json \<Rightarrow> Any outcome" where
  "fromJson self source =
     (case type_tag source of
        None \<Rightarrow> Err MissingTypeTagError
      | Some s \<Rightarrow>
          (case umap_find s (type_names self) of
             None \<Rightarrow> Err UnknownTypeNameError
           | Some t \<Rightarrow> fromJson_type self source t))"

text \<open>
  The header's \<^verbatim>\<open>ExpectedAny = nonstd::expected_lite::expected<BT::Any, std::string>\<close>,
  the result type of both \<^verbatim>\<open>fromJson\<close>: a value or an error. The model keeps the kind
  of the error in place of its string.
\<close>

datatype ExpectedAny = Expected Any | Unexpected error

text \<open>
  Modelled from the spec: what the caller of \<^verbatim>\<open>fromJson(source, type)\<close> holds when the
  call is over. Section 7: every public operation returns a success-or-error result, and
  every error of the taxonomy is surfaced to the caller as a tagged result. So the result
  holds the value, or the error, also when the stored decoder raised it as an exception,
  and also the JSON library's type error, which the taxonomy does not list; a fault is no
  result. (The body that does this is in \<^verbatim>\<open>json_export.cpp\<close>.)
\<close>

definition fromJson_type_returns :: "JsonExporter \<Rightarrow> json \<Rightarrow> type_index \<Rightarrow> ExpectedAny outcome" where
  "fromJson_type_returns self source t =
     (case fromJson_type self source t of
        Ok a \<Rightarrow> Ok (Expected a)
      | Err e \<Rightarrow> Ok (Unexpected e)
      | Fault \<Rightarrow> Fault)"

text \<open>
  The calls an application makes on the registry (section 6 of the specification), and
  what each one answers.
\<close>

datatype call =
    Call_addConverter cpp_type
  | Call_toJson_val cpp_type cval json
  | Call_toJson Any json
  | Call_fromJson json
  | Call_fromJson_type json type_index

datatype answer = Registered "unit outcome" | Encoded "json outcome" | Decoded "Any outcome"

text \<open>
  Modelled from the spec: a call as a step from the registry before it to the registry
  after it, with its answer. \<^verbatim>\<open>toJson(any, destination)\<close> and both \<^verbatim>\<open>fromJson\<close> are
  declared \<^verbatim>\<open>const\<close> in the header and their bodies are in \<^verbatim>\<open>json_export.cpp\<close>;
  sections 4.3 and 4.4 say that they never mutate the registry, so they hand it on as
  they got it. So does the member template, whose body is in the header.
\<close>

fun perform :: "call \<Rightarrow> JsonExporter \<Rightarrow> JsonExporter \<times> answer" where
  "perform (Call_addConverter T) self =
     (fst (addConverter T self), Registered (snd (addConverter T self)))"
| "perform (Call_toJson_val T val dst) self = (self, Encoded (toJson_val T val dst))"
| "perform (Call_toJson any dst) self = (self, Encoded (toJson self any dst))"
| "perform (Call_fromJson source) self = (self, Decoded (fromJson self source))"
| "perform (Call_fromJson_type source t) self = (self, Decoded (fromJson_type self source t))"

text \<open>The registry after a sequence of calls.\<close>

definition run :: "call list \<Rightarrow> JsonExporter \<Rightarrow> JsonExporter" where
  "run calls self = fold (\<lambda>c s. fst (perform c s)) calls self"

fun is_registration :: "call \<Rightarrow> bool" where
  "is_registration (Call_addConverter T) = True"
| "is_registration c = False"

section \<open>Notions used to state the properties\<close>

text \<open>
  \<open>T\<close> is registered in a registry when the closures stored under \<^verbatim>\<open>typeid(T)\<close> are the
  ones \<^verbatim>\<open>addConverter<T>\<close> builds.
\<close>

definition registered :: "cpp_type \<Rightarrow> JsonExporter \<Rightarrow> bool" where
  "registered T self =
     (umap_find (typeid T) (to_json_converters self) = Some (to_converter T) \<and>
      umap_find (typeid T) (from_json_converters self) = Some (from_converter T))"

text \<open>
  The converters of a type are round-trip partners on a value when \<open>to_json\<close> turns the
  value into a node, starting from a fresh node, and every node that \<open>to_json\<close> produces
  from the value, whatever node it started from, is read back by \<open>from_json\<close> as that
  value.
\<close>

definition round_trip :: "cpp_type \<Rightarrow> cval \<Rightarrow> bool" where
  "round_trip T v =
     ((\<exists>j. to_json T JNull v = Ok j) \<and>
      (\<forall>e j. to_json T e v = Ok j \<longrightarrow> from_json T j = Ok v))"

text \<open>The members of a node read as a map; a node that is no object has none.\<close>

definition members_of :: "json \<Rightarrow> string \<Rightarrow> json option" where
  "members_of js = (case js of JObject members \<Rightarrow> map_of members | _ \<Rightarrow> Map.empty)"

section \<open>Example types\<close>

text \<open>
  The struct of the header's own comment,
  \<^verbatim>\<open>struct Point2D { double x; double y; };\<close> with
  \<^verbatim>\<open>BT_JSON_CONVERTER(Point2D, point) { add_field("x", &point.x); add_field("y", &point.y); }\<close>
  at namespace scope. The doubles 0.0, 1.0 and 2.0 are written as their IEEE-754 bits.
\<close>

definition double_0_0 :: "64 word" where "double_0_0 = 0"
definition double_1_0 :: "64 word" where "double_1_0 = 0x3FF0000000000000"
definition double_2_0 :: "64 word" where "double_2_0 = 0x4000000000000000"

definition Point2D :: cpp_type where
  "Point2D =
     BT_JSON_CONVERTER 10 ''Point2D'' (CStruct [CDouble double_0_0, CDouble double_0_0])
       ''Point2D'' [(''x'', double_type), (''y'', double_type)]"

text \<open>
  A second struct of the same name in a namespace, declared inside it:
  \<^verbatim>\<open>namespace ns { struct Point2D { double x; double y; }; BT_JSON_CONVERTER(Point2D, p) {...} }\<close>.
  Its \<^verbatim>\<open>#Type\<close> is \<^verbatim>\<open>"Point2D"\<close> again; its demangled name is \<^verbatim>\<open>"ns::Point2D"\<close>.
\<close>

definition ns_Point2D :: cpp_type where
  "ns_Point2D =
     BT_JSON_CONVERTER 11 ''ns::Point2D'' (CStruct [CDouble double_0_0, CDouble double_0_0])
       ''Point2D'' [(''x'', double_type), (''y'', double_type)]"

text \<open>
  A struct whose one field is declared under the name of the type tag:
  \<^verbatim>\<open>struct Tagged { std::string kind; };\<close> with
  \<^verbatim>\<open>BT_JSON_CONVERTER(Tagged, t) { add_field("__type", &t.kind); }\<close>.
\<close>

definition Tagged :: cpp_type where
  "Tagged =
     BT_JSON_CONVERTER 12 ''Tagged'' (CStruct [CString []])
       ''Tagged'' [(''__type'', string_type)]"

section \<open>Facts about outcomes and tables\<close>

lemma and_then_simps [simp]:
  "and_then (Ok x) f = f x" "and_then (Err e) f = Err e" "and_then Fault f = Fault"
  by (simp_all add: and_then_def)

lemma and_then_eq_Ok: "and_then r f = Ok y \<longleftrightarrow> (\<exists>x. r = Ok x \<and> f x = Ok y)"
  by (cases r) simp_all

lemma umap_find_insert:
  "umap_find k (umap_insert (k', v) m) =
     (case umap_find k m of Some w \<Rightarrow> Some w | None \<Rightarrow> if k = k' then Some v else None)"
  by (cases "map_of m k'") (auto simp: umap_find_def umap_insert_def map_add_def split: option.splits)

lemma umap_find_insert_kept:
  "umap_find k m = Some w \<Longrightarrow> umap_find k (umap_insert kv m) = Some w"
  by (cases kv) (simp add: umap_find_insert)

lemma umap_find_insert_same: "umap_find k (umap_insert (k, v) m) \<noteq> None"
  by (simp add: umap_find_insert split: option.splits)

lemma umap_insert_present: "umap_find (fst kv) m \<noteq> None \<Longrightarrow> umap_insert kv m = m"
  by (auto simp: umap_find_def umap_insert_def split: option.splits)

lemma umap_insert_idem: "umap_insert kv (umap_insert kv m) = umap_insert kv m"
  by (cases kv) (simp add: umap_insert_present umap_find_insert_same)

lemma umap_insert_distinct:
  "distinct (map fst m) \<Longrightarrow> distinct (map fst (umap_insert kv m))"
  by (auto simp: umap_insert_def map_of_eq_None_iff split: option.splits)

lemma umap_insert_set: "set (umap_insert kv m) \<subseteq> insert kv (set m)"
  by (auto simp: umap_insert_def split: option.splits)

lemma umap_find_entry: "umap_find k m = Some v \<Longrightarrow> (k, v) \<in> set m"
  by (simp add: umap_find_def map_of_SomeD)

lemma umap_find_None_iff: "umap_find k m = None \<longleftrightarrow> k \<notin> fst ` set m"
  by (simp add: umap_find_def map_of_eq_None_iff)

lemma umap_count_distinct: "distinct (map fst m) \<Longrightarrow> umap_count k m \<le> 1"
  unfolding umap_count_def
proof (induction m)
  case Nil
  then show ?case by simp
next
  case (Cons a m)
  show ?case
  proof (cases "fst a = k")
    case True
    with Cons.prems have "k \<notin> fst ` set m" by auto
    then have "filter (\<lambda>kv. fst kv = k) m = []" by (auto simp: filter_empty_conv)
    with True show ?thesis by simp
  next
    case False
    with Cons show ?thesis by simp
  qed
qed

lemma umap_count_find:
  "umap_find k m = Some v \<Longrightarrow> 1 \<le> umap_count k m"
proof -
  assume "umap_find k m = Some v"
  then have "(k, v) \<in> set m" by (simp add: umap_find_def map_of_SomeD)
  then have "(k, v) \<in> set (filter (\<lambda>kv. fst kv = k) m)" by simp
  then have "filter (\<lambda>kv. fst kv = k) m \<noteq> []" by (force simp: filter_empty_conv)
  then show ?thesis by (cases "filter (\<lambda>kv. fst kv = k) m") (simp_all add: umap_count_def)
qed

lemma umap_count_one:
  "distinct (map fst m) \<Longrightarrow> umap_find k m = Some v \<Longrightarrow> umap_count k m = 1"
  using umap_count_distinct [of m k] umap_count_find [of k m v] by simp

section \<open>Facts about \<^verbatim>\<open>addConverter\<close>\<close>

text \<open>
  What one call does to each of the three tables, and how it ends.
\<close>

lemma addConverter_to:
  "to_json_converters (fst (addConverter T self)) =
     umap_insert (typeid T, to_converter T) (to_json_converters self)"
  by (simp add: addConverter_def Let_def split: outcome.splits)

lemma addConverter_from:
  "from_json_converters (fst (addConverter T self)) =
     (if snd (addConverter T self) = Ok ()
      then umap_insert (typeid T, from_converter T) (from_json_converters self)
      else from_json_converters self)"
  by (simp add: addConverter_def Let_def split: outcome.splits)

lemma addConverter_snd_indep: "snd (addConverter T self) = snd (addConverter T self')"
  by (simp add: addConverter_def Let_def and_then_def split: outcome.splits)

lemma addConverter_Ok_default:
  "snd (addConverter T self) = Ok () \<Longrightarrow> \<exists>js. to_json T JNull (default_ctor T) = Ok js"
  by (simp add: addConverter_def Let_def split: outcome.splits)

lemma addConverter_default_Err:
  "to_json T JNull (default_ctor T) = Err e \<Longrightarrow> snd (addConverter T self) = Err e"
  by (simp add: addConverter_def Let_def)

lemma contains_tag_string:
  "js_contains js ''__type'' \<Longrightarrow>
     and_then (js_subscript_const js ''__type'') js_get_string =
       (case type_tag js of Some s \<Rightarrow> Ok s | None \<Rightarrow> Err JsonTypeError)"
  by (auto simp: js_contains_def js_subscript_const_def js_get_string_def type_tag_def
      split: json.splits option.splits)

lemma not_contains_tag: "\<not> js_contains js ''__type'' \<Longrightarrow> type_tag js = None"
  by (auto simp: js_contains_def type_tag_def split: json.splits option.splits)

lemma type_tag_Some:
  "type_tag js = Some s \<Longrightarrow>
     js_contains js ''__type'' \<and> js_subscript_const js ''__type'' = Ok (JString s)"
  by (auto simp: type_tag_def js_contains_def js_subscript_const_def
      split: json.splits option.splits)

lemma addConverter_names_Ok:
  assumes "snd (addConverter T self) = Ok ()" and "to_json T JNull (default_ctor T) = Ok js"
  shows "type_names (fst (addConverter T self)) =
           umap_insert (demangle T, typeid T)
             (case type_tag js of
                Some s \<Rightarrow> umap_insert (s, typeid T) (type_names self)
              | None \<Rightarrow> type_names self)"
proof (cases "js_contains js ''__type''")
  case False
  with assms show ?thesis
    by (simp add: addConverter_def Let_def not_contains_tag)
next
  case True
  show ?thesis
  proof (cases "type_tag js")
    case None
    with True have "js_subscript_const js ''__type'' = Fault \<or> (\<exists>e. js_subscript_const js ''__type'' = Ok e \<and> js_get_string e = Err JsonTypeError) \<or> (\<exists>x. js_subscript_const js ''__type'' = Err x)"
      using contains_tag_string [OF True] by (cases "js_subscript_const js ''__type''") auto
    with assms True show ?thesis
      by (auto simp: addConverter_def Let_def)
  next
    case (Some s)
    with True have "\<exists>e. js_subscript_const js ''__type'' = Ok e \<and> js_get_string e = Ok s"
      using contains_tag_string [OF True] by (cases "js_subscript_const js ''__type''") auto
    with assms True Some show ?thesis
      by (auto simp: addConverter_def Let_def)
  qed
qed

lemma addConverter_names_fold:
  "\<exists>ns. type_names (fst (addConverter T self)) =
          fold (\<lambda>n. umap_insert (n, typeid T)) ns (type_names self)"
proof (cases "snd (addConverter T self) = Ok ()")
  case True
  then obtain js where js: "to_json T JNull (default_ctor T) = Ok js"
    using addConverter_Ok_default by blast
  show ?thesis
  proof (cases "type_tag js")
    case None
    with addConverter_names_Ok [OF True js]
    have "type_names (fst (addConverter T self)) =
            fold (\<lambda>n. umap_insert (n, typeid T)) [demangle T] (type_names self)" by simp
    then show ?thesis by blast
  next
    case (Some s)
    with addConverter_names_Ok [OF True js]
    have "type_names (fst (addConverter T self)) =
            fold (\<lambda>n. umap_insert (n, typeid T)) [s, demangle T] (type_names self)" by simp
    then show ?thesis by blast
  qed
next
  case False
  then have "type_names (fst (addConverter T self)) = type_names self"
    by (auto simp: addConverter_def Let_def split: outcome.splits if_splits)
  then have "type_names (fst (addConverter T self)) =
            fold (\<lambda>n. umap_insert (n, typeid T)) [] (type_names self)" by simp
  then show ?thesis by blast
qed

lemma addConverter_tagged:
  assumes "to_json T JNull (default_ctor T) = Ok js" and "type_tag js = Some s"
  shows "addConverter T self =
     (\<lparr> to_json_converters =
          umap_insert (typeid T, to_converter T) (to_json_converters self),
        from_json_converters =
          umap_insert (typeid T, from_converter T) (from_json_converters self),
        type_names =
          umap_insert (demangle T, typeid T) (umap_insert (s, typeid T) (type_names self)) \<rparr>,
      Ok ())"
  using assms type_tag_Some [OF assms(2)]
  by (simp add: addConverter_def Let_def js_get_string_def)

lemma addConverter_again:
  assumes "snd (addConverter T self) = Ok ()"
  shows "fst (addConverter T (fst (addConverter T self))) = fst (addConverter T self)"
proof -
  let ?s1 = "fst (addConverter T self)"
  have ok2: "snd (addConverter T ?s1) = Ok ()"
    using assms addConverter_snd_indep [of T ?s1 self] by simp
  obtain js where js: "to_json T JNull (default_ctor T) = Ok js"
    using assms addConverter_Ok_default by blast
  have n1: "type_names ?s1 =
      umap_insert (demangle T, typeid T)
        (case type_tag js of
           Some s \<Rightarrow> umap_insert (s, typeid T) (type_names self)
         | None \<Rightarrow> type_names self)"
    by (rule addConverter_names_Ok [OF assms js])
  have dem: "umap_find (demangle T) (type_names ?s1) \<noteq> None"
    unfolding n1 by (rule umap_find_insert_same)
  have tag: "umap_find s (type_names ?s1) \<noteq> None" if "type_tag js = Some s" for s
  proof -
    have "umap_find s (umap_insert (s, typeid T) (type_names self)) \<noteq> None"
      by (rule umap_find_insert_same)
    then obtain k where "umap_find s (umap_insert (s, typeid T) (type_names self)) = Some k"
      by blast
    then show ?thesis
      unfolding n1 using that by (simp add: umap_find_insert_kept)
  qed
  have names: "type_names (fst (addConverter T ?s1)) = type_names ?s1"
  proof (cases "type_tag js")
    case None
    then show ?thesis
      using addConverter_names_Ok [OF ok2 js] dem by (simp add: umap_insert_present)
  next
    case (Some s)
    then show ?thesis
      using addConverter_names_Ok [OF ok2 js] dem tag [OF Some] by (simp add: umap_insert_present)
  qed
  have to_eq: "to_json_converters (fst (addConverter T ?s1)) = to_json_converters ?s1"
    by (simp add: addConverter_to umap_insert_idem)
  have "from_json_converters ?s1 =
      umap_insert (typeid T, from_converter T) (from_json_converters self)"
    using assms by (simp add: addConverter_from)
  then have from_eq: "from_json_converters (fst (addConverter T ?s1)) = from_json_converters ?s1"
    using ok2 by (simp add: addConverter_from umap_insert_idem)
  show ?thesis
    by (rule JsonExporter.equality) (simp_all add: to_eq from_eq names)
qed

section \<open>Facts about sequences of registrations\<close>

text \<open>
  Every table keeps its keys distinct, keeps the entries it has, and holds only
  entries that some registration built.
\<close>

lemma register_all_Nil: "register_all [] self = self"
  by (simp add: register_all_def)

lemma register_all_snoc:
  "register_all (Ts @ [T]) self = RegisterJsonDefinition T (register_all Ts self)"
  by (simp add: register_all_def)

lemma register_all_append:
  "register_all (Ts @ Ts') self = register_all Ts' (register_all Ts self)"
  by (simp add: register_all_def)

lemma register_all_Cons:
  "register_all (T # Ts) self = register_all Ts (RegisterJsonDefinition T self)"
  by (simp add: register_all_def)

lemma fold_insert_distinct:
  "distinct (map fst m) \<Longrightarrow> distinct (map fst (fold (\<lambda>n. umap_insert (n, t)) ns m))"
  by (induction ns arbitrary: m) (simp_all add: umap_insert_distinct)

lemma fold_insert_kept:
  "umap_find k m = Some v \<Longrightarrow> umap_find k (fold (\<lambda>n. umap_insert (n, t)) ns m) = Some v"
  by (induction ns arbitrary: m) (simp_all add: umap_find_insert_kept)

lemma fold_insert_values:
  "snd ` set (fold (\<lambda>n. umap_insert (n, t)) ns m) \<subseteq> insert t (snd ` set m)"
proof (induction ns arbitrary: m)
  case Nil
  then show ?case by auto
next
  case (Cons n ns)
  have "snd ` set (umap_insert (n, t) m) \<subseteq> insert t (snd ` set m)"
    using umap_insert_set [of "(n, t)" m] by auto
  with Cons.IH [of "umap_insert (n, t) m"] show ?case by auto
qed

lemma Register_to:
  "to_json_converters (RegisterJsonDefinition T self) =
     umap_insert (typeid T, to_converter T) (to_json_converters self)"
  by (simp add: RegisterJsonDefinition_def addConverter_to)

lemma Register_distinct:
  assumes "distinct (map fst (to_json_converters self))"
    and "distinct (map fst (from_json_converters self))"
    and "distinct (map fst (type_names self))"
  shows "distinct (map fst (to_json_converters (RegisterJsonDefinition T self))) \<and>
         distinct (map fst (from_json_converters (RegisterJsonDefinition T self))) \<and>
         distinct (map fst (type_names (RegisterJsonDefinition T self)))"
proof -
  obtain ns where "type_names (fst (addConverter T self)) =
      fold (\<lambda>n. umap_insert (n, typeid T)) ns (type_names self)"
    using addConverter_names_fold by blast
  with assms show ?thesis
    by (simp add: RegisterJsonDefinition_def addConverter_to addConverter_from
        umap_insert_distinct fold_insert_distinct)
qed

lemma Register_kept_to:
  "umap_find k (to_json_converters self) = Some c \<Longrightarrow>
   umap_find k (to_json_converters (RegisterJsonDefinition T self)) = Some c"
  by (simp add: Register_to umap_find_insert_kept)

lemma Register_kept_from:
  "umap_find k (from_json_converters self) = Some c \<Longrightarrow>
   umap_find k (from_json_converters (RegisterJsonDefinition T self)) = Some c"
  by (simp add: RegisterJsonDefinition_def addConverter_from umap_find_insert_kept)

lemma Register_kept_names:
  "umap_find n (type_names self) = Some k \<Longrightarrow>
   umap_find n (type_names (RegisterJsonDefinition T self)) = Some k"
proof -
  assume a: "umap_find n (type_names self) = Some k"
  obtain ns where "type_names (fst (addConverter T self)) =
      fold (\<lambda>n. umap_insert (n, typeid T)) ns (type_names self)"
    using addConverter_names_fold by blast
  with a show ?thesis by (simp add: RegisterJsonDefinition_def fold_insert_kept)
qed

lemma Register_entries_to:
  "set (to_json_converters (RegisterJsonDefinition T self)) \<subseteq>
     insert (typeid T, to_converter T) (set (to_json_converters self))"
  by (simp add: Register_to umap_insert_set)

lemma Register_entries_from:
  "set (from_json_converters (RegisterJsonDefinition T self)) \<subseteq>
     insert (typeid T, from_converter T) (set (from_json_converters self))"
  using umap_insert_set [of "(typeid T, from_converter T)" "from_json_converters self"]
  by (auto simp: RegisterJsonDefinition_def addConverter_from)

lemma Register_entries_names:
  "snd ` set (type_names (RegisterJsonDefinition T self)) \<subseteq>
     insert (typeid T) (snd ` set (type_names self))"
proof -
  obtain ns where "type_names (fst (addConverter T self)) =
      fold (\<lambda>n. umap_insert (n, typeid T)) ns (type_names self)"
    using addConverter_names_fold by blast
  then show ?thesis
    using fold_insert_values [of "typeid T" ns "type_names self"]
    by (simp add: RegisterJsonDefinition_def)
qed

lemma reached_distinct:
  "distinct (map fst (to_json_converters (register_all Ts global_instance))) \<and>
   distinct (map fst (from_json_converters (register_all Ts global_instance))) \<and>
   distinct (map fst (type_names (register_all Ts global_instance)))"
proof (induction Ts rule: rev_induct)
  case Nil
  then show ?case by (simp add: register_all_Nil global_instance_def)
next
  case (snoc T Ts)
  then show ?case by (simp add: register_all_snoc Register_distinct)
qed

lemma reached_entries_to:
  "set (to_json_converters (register_all Ts global_instance)) \<subseteq>
     (\<lambda>T. (typeid T, to_converter T)) ` set Ts"
proof (induction Ts rule: rev_induct)
  case Nil
  then show ?case by (simp add: register_all_Nil global_instance_def)
next
  case (snoc T Ts)
  with Register_entries_to [of T "register_all Ts global_instance"] show ?case
    by (auto simp: register_all_snoc)
qed

lemma reached_entries_from:
  "set (from_json_converters (register_all Ts global_instance)) \<subseteq>
     (\<lambda>T. (typeid T, from_converter T)) ` set Ts"
proof (induction Ts rule: rev_induct)
  case Nil
  then show ?case by (simp add: register_all_Nil global_instance_def)
next
  case (snoc T Ts)
  with Register_entries_from [of T "register_all Ts global_instance"] show ?case
    by (auto simp: register_all_snoc)
qed

lemma reached_entries_names:
  "snd ` set (type_names (register_all Ts global_instance)) \<subseteq> typeid ` set Ts"
proof (induction Ts rule: rev_induct)
  case Nil
  then show ?case by (simp add: register_all_Nil global_instance_def)
next
  case (snoc T Ts)
  with Register_entries_names [of T "register_all Ts global_instance"] show ?case
    by (auto simp: register_all_snoc)
qed

lemma register_all_kept_names:
  "umap_find n (type_names self) = Some k \<Longrightarrow>
   umap_find n (type_names (register_all Ts self)) = Some k"
  by (induction Ts rule: rev_induct) (simp_all add: register_all_Nil register_all_snoc Register_kept_names)

lemma register_all_kept_to:
  "umap_find k (to_json_converters self) = Some c \<Longrightarrow>
   umap_find k (to_json_converters (register_all Ts self)) = Some c"
  by (induction Ts rule: rev_induct) (simp_all add: register_all_Nil register_all_snoc Register_kept_to)

lemma register_all_kept_from:
  "umap_find k (from_json_converters self) = Some c \<Longrightarrow>
   umap_find k (from_json_converters (register_all Ts self)) = Some c"
  by (induction Ts rule: rev_induct) (simp_all add: register_all_Nil register_all_snoc Register_kept_from)

lemma reached_to_converter:
  assumes odr: "\<forall>T'\<in>set Ts. typeid T' = typeid T \<longrightarrow> T' = T"
    and found: "umap_find (typeid T) (to_json_converters (register_all Ts global_instance)) = Some c"
  shows "c = to_converter T"
proof -
  have "(typeid T, c) \<in> set (to_json_converters (register_all Ts global_instance))"
    using found by (rule umap_find_entry)
  then obtain T' where "T' \<in> set Ts" "typeid T' = typeid T" "c = to_converter T'"
    using reached_entries_to [of Ts] by auto
  with odr show ?thesis by auto
qed

lemma reached_from_converter:
  assumes odr: "\<forall>T'\<in>set Ts. typeid T' = typeid T \<longrightarrow> T' = T"
    and found: "umap_find (typeid T) (from_json_converters (register_all Ts global_instance)) = Some c"
  shows "c = from_converter T"
proof -
  have "(typeid T, c) \<in> set (from_json_converters (register_all Ts global_instance))"
    using found by (rule umap_find_entry)
  then obtain T' where "T' \<in> set Ts" "typeid T' = typeid T" "c = from_converter T'"
    using reached_entries_from [of Ts] by auto
  with odr show ?thesis by auto
qed

lemma Register_registered_kept:
  "registered T self \<Longrightarrow> registered T (RegisterJsonDefinition T' self)"
  by (simp add: registered_def Register_kept_to Register_kept_from)

lemma register_all_registered_kept:
  "registered T self \<Longrightarrow> registered T (register_all Ts self)"
  by (simp add: registered_def register_all_kept_to register_all_kept_from)

lemma reached_registered:
  assumes mem: "T \<in> set Ts"
    and odr: "\<forall>T'\<in>set Ts. typeid T' = typeid T \<longrightarrow> T' = T"
    and ok: "snd (addConverter T global_instance) = Ok ()"
  shows "registered T (register_all Ts global_instance)"
proof -
  from mem obtain pre post where Ts: "Ts = pre @ T # post"
    by (auto simp: in_set_conv_decomp)
  let ?r0 = "register_all pre global_instance"
  let ?r1 = "register_all (pre @ [T]) global_instance"
  have odr1: "\<forall>T'\<in>set (pre @ [T]). typeid T' = typeid T \<longrightarrow> T' = T"
    using odr Ts by auto
  have r1: "?r1 = fst (addConverter T ?r0)"
    by (simp add: register_all_snoc RegisterJsonDefinition_def)
  have ok0: "snd (addConverter T ?r0) = Ok ()"
    using ok addConverter_snd_indep [of T ?r0 global_instance] by simp
  have "umap_find (typeid T) (to_json_converters ?r1) \<noteq> None"
    unfolding r1 addConverter_to by (rule umap_find_insert_same)
  then obtain c where c: "umap_find (typeid T) (to_json_converters ?r1) = Some c" by blast
  have "umap_find (typeid T) (from_json_converters ?r1) \<noteq> None"
    unfolding r1 using ok0 by (simp add: addConverter_from umap_find_insert_same)
  then obtain d where d: "umap_find (typeid T) (from_json_converters ?r1) = Some d" by blast
  have "registered T ?r1"
    using reached_to_converter [OF odr1 c] c reached_from_converter [OF odr1 d] d
    by (simp add: registered_def)
  then have "registered T (register_all post ?r1)"
    by (rule register_all_registered_kept)
  moreover have "register_all Ts global_instance = register_all post ?r1"
    using register_all_append [of "pre @ [T]" post global_instance] by (simp add: Ts)
  ultimately show ?thesis by simp
qed

section \<open>Facts about the macro's walks\<close>

text \<open>
  The encoding walk writes each declared field under its name and leaves the other
  members alone; the decoding walk reads them back by name.
\<close>

lemma members_of_at: "members_of js k = Some j \<Longrightarrow> js_at js k = Ok j"
  by (cases js) (simp_all add: members_of_def js_at_def)

lemma js_at_Ok: "js_at js k = Ok j \<Longrightarrow> members_of js k = Some j"
  by (cases js) (simp_all add: members_of_def js_at_def split: option.splits)

lemma js_contains_members: "js_contains js k \<longleftrightarrow> members_of js k \<noteq> None"
  by (cases js) (simp_all add: members_of_def js_contains_def split: option.splits)

lemma js_subscript_Ok:
  assumes "js_subscript js k f = Ok js'"
  shows "\<exists>e'. f (case members_of js k of None \<Rightarrow> JNull | Some e \<Rightarrow> e) = Ok e' \<and>
              members_of js' = (members_of js)(k \<mapsto> e')"
proof (cases js)
  case JNull
  with assms show ?thesis
    by (auto simp: js_subscript_def members_of_def and_then_eq_Ok)
next
  case (JObject members)
  with assms show ?thesis
    by (auto simp: js_subscript_def members_of_def and_then_eq_Ok update_conv')
qed (use assms in \<open>simp_all add: js_subscript_def\<close>)

lemma to_json_fields_members:
  assumes "to_json_fields decl ms js = Ok js'"
    and "distinct (map fst decl)"
    and "list_all2 (\<lambda>d m. round_trip (snd d) m) decl ms"
  shows "(\<forall>k. k \<notin> fst ` set decl \<longrightarrow> members_of js' k = members_of js k) \<and>
         list_all2 (\<lambda>d m. \<exists>j. members_of js' (fst d) = Some j \<and> from_json (snd d) j = Ok m) decl ms"
  using assms
proof (induction decl arbitrary: ms js)
  case Nil
  then show ?case by simp
next
  case (Cons d decl)
  obtain name ft where d: "d = (name, ft)" by (cases d)
  from Cons.prems(3) obtain m ms' where ms: "ms = m # ms'"
    and rt: "round_trip ft m" and rest: "list_all2 (\<lambda>d m. round_trip (snd d) m) decl ms'"
    by (auto simp: d list_all2_Cons1)
  from Cons.prems(1) obtain js1 where
    step: "js_subscript js name (\<lambda>e. to_json ft e m) = Ok js1"
    and walk: "to_json_fields decl ms' js1 = Ok js'"
    by (auto simp: d ms and_then_eq_Ok)
  from js_subscript_Ok [OF step] obtain j where
    j: "to_json ft (case members_of js name of None \<Rightarrow> JNull | Some e \<Rightarrow> e) m = Ok j"
    and m1: "members_of js1 = (members_of js)(name \<mapsto> j)"
    by blast
  have readback: "from_json ft j = Ok m"
    using rt j by (auto simp: round_trip_def)
  have dist: "distinct (map fst decl)" and fresh: "name \<notin> fst ` set decl"
    using Cons.prems(2) by (auto simp: d)
  from Cons.IH [OF walk dist rest]
  have keep: "\<forall>k. k \<notin> fst ` set decl \<longrightarrow> members_of js' k = members_of js1 k"
    and tail: "list_all2 (\<lambda>d m. \<exists>j. members_of js' (fst d) = Some j \<and> from_json (snd d) j = Ok m) decl ms'"
    by simp_all
  have here: "members_of js' name = Some j"
    using keep fresh m1 by simp
  have others: "\<forall>k. k \<notin> fst ` set (d # decl) \<longrightarrow> members_of js' k = members_of js k"
    using keep m1 by (auto simp: d)
  show ?case
    using others here readback tail by (simp add: d ms)
qed

lemma from_json_fields_members:
  "list_all2 (\<lambda>d m. \<exists>j. members_of js (fst d) = Some j \<and> from_json (snd d) j = Ok m) decl ms \<Longrightarrow>
   from_json_fields decl js = Ok ms"
proof (induction decl arbitrary: ms)
  case Nil
  then show ?case by simp
next
  case (Cons d decl)
  obtain name ft where d: "d = (name, ft)" by (cases d)
  from Cons.prems obtain m ms' j where ms: "ms = m # ms'"
    and j: "members_of js name = Some j" "from_json ft j = Ok m"
    and rest: "list_all2 (\<lambda>d m. \<exists>j. members_of js (fst d) = Some j \<and> from_json (snd d) j = Ok m) decl ms'"
    by (auto simp: d list_all2_Cons1)
  show ?case
    using members_of_at [OF j(1)] j(2) Cons.IH [OF rest] by (simp add: d ms)
qed

lemma js_subscript_succeeds:
  assumes "js = JNull \<or> (\<exists>members. js = JObject members)"
    and "f (case members_of js k of None \<Rightarrow> JNull | Some e \<Rightarrow> e) = Ok e'"
  shows "\<exists>members'. js_subscript js k f = Ok (JObject members')"
  using assms by (auto simp: js_subscript_def members_of_def)

lemma to_json_fields_succeeds:
  assumes "distinct (map fst decl)"
    and "list_all2 (\<lambda>d m. \<exists>j. to_json (snd d) JNull m = Ok j) decl ms"
    and "\<forall>k\<in>fst ` set decl. members_of js k = None"
    and "js = JNull \<or> (\<exists>members. js = JObject members)"
  shows "\<exists>js'. to_json_fields decl ms js = Ok js' \<and> (js' = JNull \<or> (\<exists>members. js' = JObject members))"
  using assms
proof (induction decl arbitrary: ms js)
  case Nil
  then show ?case by simp
next
  case (Cons d decl)
  obtain name ft where d: "d = (name, ft)" by (cases d)
  from Cons.prems(2) obtain m ms' j where ms: "ms = m # ms'"
    and j: "to_json ft JNull m = Ok j"
    and rest: "list_all2 (\<lambda>d m. \<exists>j. to_json (snd d) JNull m = Ok j) decl ms'"
    by (auto simp: d list_all2_Cons1)
  have absent: "members_of js name = None"
    using Cons.prems(3) by (simp add: d)
  have "\<exists>members1. js_subscript js name (\<lambda>e. to_json ft e m) = Ok (JObject members1)"
    using js_subscript_succeeds [of js "\<lambda>e. to_json ft e m" name j] Cons.prems(4) absent j
    by simp
  then obtain members1 where step: "js_subscript js name (\<lambda>e. to_json ft e m) = Ok (JObject members1)"
    by blast
  from js_subscript_Ok [OF step] j absent
  have m1: "members_of (JObject members1) = (members_of js)(name \<mapsto> j)"
    by auto
  have dist: "distinct (map fst decl)" and fresh: "name \<notin> fst ` set decl"
    using Cons.prems(1) by (auto simp: d)
  have none: "\<forall>k\<in>fst ` set decl. members_of (JObject members1) k = None"
  proof
    fix k assume k: "k \<in> fst ` set decl"
    then have "k \<noteq> name" using fresh by auto
    moreover have "members_of js k = None" using Cons.prems(3) k by force
    ultimately show "members_of (JObject members1) k = None" by (simp add: m1)
  qed
  have obj: "JObject members1 = JNull \<or> (\<exists>members. JObject members1 = JObject members)" by simp
  from Cons.IH [OF dist rest none obj] show ?case
    by (simp add: d ms step)
qed

lemma macro_encodes_fresh:
  assumes "distinct (map fst decl)"
    and "list_all2 (\<lambda>d m. \<exists>j. to_json (snd d) JNull m = Ok j) decl ms"
  shows "\<exists>j. to_json (BT_JSON_CONVERTER tid dname dflt type_str decl) JNull (CStruct ms) = Ok j"
proof -
  have "\<forall>k\<in>fst ` set decl. members_of JNull k = None" by (simp add: members_of_def)
  from to_json_fields_succeeds [OF assms this]
  obtain js' where walk: "to_json_fields decl ms JNull = Ok js'"
    and shape: "js' = JNull \<or> (\<exists>members. js' = JObject members)"
    by auto
  have "\<exists>members'. js_subscript js' ''__type'' (\<lambda>e. Ok (JString type_str)) = Ok (JObject members')"
    using js_subscript_succeeds [of js' "\<lambda>e. Ok (JString type_str)" "''__type''" "JString type_str"] shape
    by simp
  then obtain members' where "js_subscript js' ''__type'' (\<lambda>e. Ok (JString type_str)) = Ok (JObject members')"
    by blast
  with walk show ?thesis
    by (simp add: BT_JSON_CONVERTER_def macro_to_json_def)
qed

lemma macro_round_trip:
  assumes "distinct (map fst decl)"
    and "''__type'' \<notin> fst ` set decl"
    and "list_all2 (\<lambda>d m. round_trip (snd d) m) decl ms"
  shows "round_trip (BT_JSON_CONVERTER tid dname dflt type_str decl) (CStruct ms)"
  unfolding round_trip_def
proof (intro conjI allI impI)
  have "list_all2 (\<lambda>d m. \<exists>j. to_json (snd d) JNull m = Ok j) decl ms"
    using assms(3) by (rule list_all2_mono) (simp add: round_trip_def)
  with assms(1)
  show "\<exists>j. to_json (BT_JSON_CONVERTER tid dname dflt type_str decl) JNull (CStruct ms) = Ok j"
    by (rule macro_encodes_fresh)
next
  fix e j
  assume "to_json (BT_JSON_CONVERTER tid dname dflt type_str decl) e (CStruct ms) = Ok j"
  then obtain js1 where walk: "to_json_fields decl ms e = Ok js1"
    and stamp: "js_subscript js1 ''__type'' (\<lambda>e. Ok (JString type_str)) = Ok j"
    by (auto simp: BT_JSON_CONVERTER_def macro_to_json_def and_then_eq_Ok)
  from to_json_fields_members [OF walk assms(1) assms(3)]
  have fields1: "list_all2 (\<lambda>d m. \<exists>j. members_of js1 (fst d) = Some j \<and> from_json (snd d) j = Ok m) decl ms"
    by simp
  from js_subscript_Ok [OF stamp]
  have mj: "members_of j = (members_of js1)(''__type'' \<mapsto> JString type_str)" by auto
  have "\<forall>d\<in>set decl. members_of j (fst d) = members_of js1 (fst d)"
  proof
    fix d assume "d \<in> set decl"
    then have "fst d \<noteq> ''__type''" using assms(2) by force
    then show "members_of j (fst d) = members_of js1 (fst d)" by (simp add: mj)
  qed
  with fields1
  have "list_all2 (\<lambda>d m. \<exists>ja. members_of j (fst d) = Some ja \<and> from_json (snd d) ja = Ok m) decl ms"
    by (auto simp: list_all2_conv_all_nth)
  then have "from_json_fields decl j = Ok ms"
    by (rule from_json_fields_members)
  then show "from_json (BT_JSON_CONVERTER tid dname dflt type_str decl) j = Ok (CStruct ms)"
    by (simp add: BT_JSON_CONVERTER_def macro_from_json_def)
qed

lemma primitive_round_trip:
  "round_trip bool_type (CBool b)" "round_trip double_type (CDouble d)"
  "round_trip string_type (CString s)"
  by (simp_all add: round_trip_def bool_type_def double_type_def string_type_def)

lemma not_contains_at: "\<not> js_contains js k \<Longrightarrow> js_at js k \<noteq> Ok j"
  using js_at_Ok [of js k j] by (auto simp: js_contains_members)

lemma not_contains_at_object:
  "\<not> js_contains (JObject members) k \<Longrightarrow> js_at (JObject members) k = Err (MissingFieldError k)"
  by (simp add: js_contains_def js_at_def split: option.splits)

lemma from_json_fields_append:
  "from_json_fields (pre @ rest) js =
     and_then (from_json_fields pre js) (\<lambda>vs.
     and_then (from_json_fields rest js) (\<lambda>ws. Ok (vs @ ws)))"
proof (induction pre)
  case Nil
  show ?case by (cases "from_json_fields rest js") simp_all
next
  case (Cons d pre)
  obtain name ft where d: "d = (name, ft)" by (cases d)
  show ?case
  proof (cases "js_at js name")
    case (Ok e)
    show ?thesis
    proof (cases "from_json ft e")
      case (Ok v)
      note v = this
      show ?thesis
      proof (cases "from_json_fields pre js")
        case (Ok vs)
        then show ?thesis
          using \<open>js_at js name = Ok e\<close> v Cons.IH
          by (cases "from_json_fields rest js") (simp_all add: d)
      qed (use \<open>js_at js name = Ok e\<close> v Cons.IH in \<open>simp_all add: d\<close>)
    qed (use \<open>js_at js name = Ok e\<close> in \<open>simp_all add: d\<close>)
  qed (simp_all add: d)
qed

lemma from_json_fields_missing:
  "name \<in> fst ` set decl \<Longrightarrow> \<not> js_contains js name \<Longrightarrow> from_json_fields decl js \<noteq> Ok vs"
proof (induction decl arbitrary: vs)
  case Nil
  then show ?case by simp
next
  case (Cons d decl)
  obtain n ft where d: "d = (n, ft)" by (cases d)
  show ?case
  proof (cases "n = name")
    case True
    then show ?thesis
      using not_contains_at [OF Cons.prems(2)] by (auto simp: d and_then_eq_Ok)
  next
    case False
    with Cons.prems(1) have "name \<in> fst ` set decl" by (auto simp: d)
    from Cons.IH [OF this Cons.prems(2)] show ?thesis
      by (auto simp: d and_then_eq_Ok)
  qed
qed

text \<open>
  Where the decoding walk stops: on a declaration it does not read to the end, there is a
  first field at which \<^verbatim>\<open>js.at(name)\<close> or \<^verbatim>\<open>get_to\<close> fails, the fields declared before
  it are read, and the walk ends as that step does. The lookup itself raises and never
  faults.
\<close>

lemma js_at_not_Fault: "js_at js n \<noteq> Fault"
  by (simp add: js_at_def split: json.splits option.splits)

lemma js_at_Err_object:
  "js_at (JObject members) n = Err e \<Longrightarrow>
     \<not> js_contains (JObject members) n \<and> e = MissingFieldError n"
  by (simp add: js_at_def js_contains_def split: option.splits)

lemma js_at_not_object:
  "(\<nexists>members. js = JObject members) \<Longrightarrow> js_at js n = Err JsonTypeError"
  by (cases js) (simp_all add: js_at_def)

lemma from_json_fields_first_failure:
  "(\<exists>vs. from_json_fields decl js = Ok vs) \<or>
   (\<exists>pre n ft post vs. decl = pre @ (n, ft) # post \<and> from_json_fields pre js = Ok vs \<and>
      ((\<exists>e. js_at js n = Err e \<and> from_json_fields decl js = Err e) \<or>
       (\<exists>el e. js_at js n = Ok el \<and> from_json ft el = Err e \<and> from_json_fields decl js = Err e) \<or>
       (\<exists>el. js_at js n = Ok el \<and> from_json ft el = Fault \<and> from_json_fields decl js = Fault)))"
proof (induction decl)
  case Nil
  show ?case by simp
next
  case (Cons d decl)
  obtain n ft where d: "d = (n, ft)" by (cases d)
  let ?here = "\<lambda>r. \<exists>pre n' ft' post vs. d # decl = pre @ (n', ft') # post \<and>
      from_json_fields pre js = Ok vs \<and>
      ((\<exists>e. js_at js n' = Err e \<and> r = Err e) \<or>
       (\<exists>el e. js_at js n' = Ok el \<and> from_json ft' el = Err e \<and> r = Err e) \<or>
       (\<exists>el. js_at js n' = Ok el \<and> from_json ft' el = Fault \<and> r = Fault))"
  have first: "?here (from_json_fields (d # decl) js)"
    if "(\<exists>e. js_at js n = Err e \<and> from_json_fields (d # decl) js = Err e) \<or>
        (\<exists>el e. js_at js n = Ok el \<and> from_json ft el = Err e \<and> from_json_fields (d # decl) js = Err e) \<or>
        (\<exists>el. js_at js n = Ok el \<and> from_json ft el = Fault \<and> from_json_fields (d # decl) js = Fault)"
  proof -
    have "d # decl = [] @ (n, ft) # decl \<and> from_json_fields [] js = Ok []"
      by (simp add: d)
    with that show ?thesis by blast
  qed
  show ?case
  proof (cases "js_at js n")
    case (Err e)
    then have "from_json_fields (d # decl) js = Err e" by (simp add: d)
    with Err first show ?thesis by blast
  next
    case Fault
    then show ?thesis using js_at_not_Fault by blast
  next
    case (Ok el)
    note at = this
    show ?thesis
    proof (cases "from_json ft el")
      case (Err e)
      then have "from_json_fields (d # decl) js = Err e" using at by (simp add: d)
      with Err at first show ?thesis by blast
    next
      case Fault
      then have "from_json_fields (d # decl) js = Fault" using at by (simp add: d)
      with Fault at first show ?thesis by blast
    next
      case (Ok v)
      note conv = this
      show ?thesis
      proof (cases "\<exists>vs. from_json_fields decl js = Ok vs")
        case True
        then obtain vs where "from_json_fields decl js = Ok vs" by blast
        then have "from_json_fields (d # decl) js = Ok (v # vs)"
          using at conv by (simp add: d)
        then show ?thesis by blast
      next
        case False
        with Cons.IH obtain pre n' ft' post vs where
          split: "decl = pre @ (n', ft') # post" and pre: "from_json_fields pre js = Ok vs"
          and fail: "(\<exists>e. js_at js n' = Err e \<and> from_json_fields decl js = Err e) \<or>
            (\<exists>el e. js_at js n' = Ok el \<and> from_json ft' el = Err e \<and> from_json_fields decl js = Err e) \<or>
            (\<exists>el. js_at js n' = Ok el \<and> from_json ft' el = Fault \<and> from_json_fields decl js = Fault)"
          by blast
        have s2: "d # decl = (d # pre) @ (n', ft') # post" using split by simp
        have p2: "from_json_fields (d # pre) js = Ok (v # vs)"
          using at conv pre by (simp add: d)
        have same: "from_json_fields decl js = Err e \<Longrightarrow> from_json_fields (d # decl) js = Err e" for e
          using at conv by (simp add: d)
        have sameF: "from_json_fields decl js = Fault \<Longrightarrow> from_json_fields (d # decl) js = Fault"
          using at conv by (simp add: d)
        from fail have "(\<exists>e. js_at js n' = Err e \<and> from_json_fields (d # decl) js = Err e) \<or>
            (\<exists>el e. js_at js n' = Ok el \<and> from_json ft' el = Err e \<and> from_json_fields (d # decl) js = Err e) \<or>
            (\<exists>el. js_at js n' = Ok el \<and> from_json ft' el = Fault \<and> from_json_fields (d # decl) js = Fault)"
          using same sameF by blast
        with s2 p2 show ?thesis by blast
      qed
    qed
  qed
qed

lemma primitive_from_json_never_faults:
  "from_json bool_type j \<noteq> Fault" "from_json double_type j \<noteq> Fault"
  "from_json string_type j \<noteq> Fault"
  by (simp_all add: bool_type_def double_type_def string_type_def split: json.splits)

lemma from_json_fields_present:
  "from_json_fields decl js = Ok vs \<Longrightarrow> m \<in> fst ` set decl \<Longrightarrow> js_contains js m"
  using from_json_fields_missing [of m decl js vs] by blast

section \<open>Through the lookups of \<^verbatim>\<open>toJson\<close> and \<^verbatim>\<open>fromJson\<close>\<close>

text \<open>
  For a registered type the two entry points, as the specification describes their
  bodies, are the stored closures.
\<close>

lemma registered_toJson:
  "registered T self \<Longrightarrow> toJson self (Any (typeid T) v) dst = to_json T dst v"
  by (simp add: registered_def toJson_def to_converter_def)

lemma registered_fromJson_type:
  "registered T self \<Longrightarrow> fromJson_type self node (typeid T) = from_converter T node"
  by (simp add: registered_def fromJson_type_def)

lemma registered_round_trip_general:
  assumes "registered T self" and "round_trip T v"
    and "toJson self (Any (typeid T) v) dst = Ok node"
  shows "fromJson_type self node (typeid T) = Ok (Any (typeid T) v)"
proof -
  have "to_json T dst v = Ok node"
    using assms(1,3) by (simp add: registered_toJson)
  then have "from_json T node = Ok v"
    using assms(2) by (auto simp: round_trip_def)
  then show ?thesis
    using assms(1) by (simp add: registered_fromJson_type from_converter_def)
qed

lemma type_tag_None:
  "(\<nexists>members s. source = JObject members \<and> map_of members ''__type'' = Some (JString s)) \<Longrightarrow>
   type_tag source = None"
  by (auto simp: type_tag_def split: json.splits option.splits)

lemma type_tag_object:
  "map_of members ''__type'' = Some (JString s) \<Longrightarrow> type_tag (JObject members) = Some s"
  by (simp add: type_tag_def)

section \<open>Facts about sequences of calls\<close>

lemma run_Cons: "run (c # calls) self = run calls (fst (perform c self))"
  by (simp add: run_def)

lemma perform_const: "\<not> is_registration c \<Longrightarrow> fst (perform c self) = self"
  by (cases c) simp_all

lemma run_registrations: "run calls self = run (filter is_registration calls) self"
proof (induction calls arbitrary: self)
  case Nil
  show ?case by simp
next
  case (Cons c calls)
  show ?case
  proof (cases "is_registration c")
    case True
    then show ?thesis using Cons.IH by (simp add: run_Cons)
  next
    case False
    then show ?thesis using Cons.IH by (simp add: run_Cons perform_const)
  qed
qed

section \<open>Evaluating the model on the example types\<close>

lemmas macro_eval =
  BT_JSON_CONVERTER_def macro_to_json_def macro_from_json_def js_subscript_def js_at_def
  js_contains_def js_subscript_const_def js_get_string_def
  bool_type_def double_type_def string_type_def

lemma Point2D_facts:
  "typeid Point2D = 10" "demangle Point2D = ''Point2D''"
  "to_json Point2D JNull (default_ctor Point2D) =
     Ok (JObject [(''x'', JNumberFloat double_0_0), (''y'', JNumberFloat double_0_0),
                  (''__type'', JString ''Point2D'')])"
  by (simp_all add: Point2D_def macro_eval)

lemma ns_Point2D_facts:
  "typeid ns_Point2D = 11" "demangle ns_Point2D = ''ns::Point2D''"
  "to_json ns_Point2D JNull (default_ctor ns_Point2D) =
     Ok (JObject [(''x'', JNumberFloat double_0_0), (''y'', JNumberFloat double_0_0),
                  (''__type'', JString ''Point2D'')])"
  by (simp_all add: ns_Point2D_def macro_eval)

lemma Tagged_facts:
  "typeid Tagged = 12" "demangle Tagged = ''Tagged''"
  "to_json Tagged JNull (default_ctor Tagged) = Ok (JObject [(''__type'', JString ''Tagged'')])"
  by (simp_all add: Tagged_def macro_eval)

lemma tag_of_default:
  "type_tag (JObject [(''x'', ex), (''y'', ey), (''__type'', JString s)]) = Some s"
  by (simp add: type_tag_def)

lemma tag_of_default_Tagged: "type_tag (JObject [(''__type'', JString s)]) = Some s"
  by (simp add: type_tag_def)

lemma addConverter_Point2D:
  "addConverter Point2D self =
     (\<lparr> to_json_converters = umap_insert (10, to_converter Point2D) (to_json_converters self),
        from_json_converters = umap_insert (10, from_converter Point2D) (from_json_converters self),
        type_names = umap_insert (''Point2D'', 10) (umap_insert (''Point2D'', 10) (type_names self)) \<rparr>,
      Ok ())"
  using addConverter_tagged [OF Point2D_facts(3) tag_of_default, of self]
  by (simp add: Point2D_facts)

lemma Register_Point2D_name:
  "umap_find ''Point2D'' (type_names (RegisterJsonDefinition Point2D self)) =
     (case umap_find ''Point2D'' (type_names self) of Some k \<Rightarrow> Some k | None \<Rightarrow> Some 10)"
  by (simp add: RegisterJsonDefinition_def addConverter_Point2D umap_find_insert
      split: option.splits)

lemma addConverter_ns_Point2D:
  "addConverter ns_Point2D self =
     (\<lparr> to_json_converters = umap_insert (11, to_converter ns_Point2D) (to_json_converters self),
        from_json_converters = umap_insert (11, from_converter ns_Point2D) (from_json_converters self),
        type_names = umap_insert (''ns::Point2D'', 11) (umap_insert (''Point2D'', 11) (type_names self)) \<rparr>,
      Ok ())"
  using addConverter_tagged [OF ns_Point2D_facts(3) tag_of_default, of self]
  by (simp add: ns_Point2D_facts)

lemma addConverter_Tagged:
  "addConverter Tagged self =
     (\<lparr> to_json_converters = umap_insert (12, to_converter Tagged) (to_json_converters self),
        from_json_converters = umap_insert (12, from_converter Tagged) (from_json_converters self),
        type_names = umap_insert (''Tagged'', 12) (umap_insert (''Tagged'', 12) (type_names self)) \<rparr>,
      Ok ())"
  using addConverter_tagged [OF Tagged_facts(3) tag_of_default_Tagged, of self]
  by (simp add: Tagged_facts)

lemmas example_registry =
  register_all_def RegisterJsonDefinition_def addConverter_Point2D addConverter_ns_Point2D
  global_instance_def umap_insert_def

lemma registry_ns_then_plain:
  "register_all [ns_Point2D, Point2D] global_instance =
     \<lparr> to_json_converters = [(11, to_converter ns_Point2D), (10, to_converter Point2D)],
       from_json_converters = [(11, from_converter ns_Point2D), (10, from_converter Point2D)],
       type_names = [(''Point2D'', 11), (''ns::Point2D'', 11)] \<rparr>"
  by (simp add: example_registry)

lemma registry_ns:
  "register_all [ns_Point2D] global_instance =
     \<lparr> to_json_converters = [(11, to_converter ns_Point2D)],
       from_json_converters = [(11, from_converter ns_Point2D)],
       type_names = [(''Point2D'', 11), (''ns::Point2D'', 11)] \<rparr>"
  by (simp add: example_registry)

lemma registry_plain:
  "register_all [Point2D] global_instance =
     \<lparr> to_json_converters = [(10, to_converter Point2D)],
       from_json_converters = [(10, from_converter Point2D)],
       type_names = [(''Point2D'', 10)] \<rparr>"
  by (simp add: example_registry)

lemma Point2D_registry:
  "RegisterJsonDefinition Point2D global_instance =
     \<lparr> to_json_converters = [(10, to_converter Point2D)],
       from_json_converters = [(10, from_converter Point2D)],
       type_names = [(''Point2D'', 10)] \<rparr>"
  by (simp add: example_registry)

lemma registry_Tagged:
  "register_all [Tagged] global_instance =
     \<lparr> to_json_converters = [(12, to_converter Tagged)],
       from_json_converters = [(12, from_converter Tagged)],
       type_names = [(''Tagged'', 12)] \<rparr>"
  by (simp add: example_registry addConverter_Tagged)

section \<open>The properties\<close>

text \<open>
  C1, as amended. \<open>T\<close> is declared through \<^verbatim>\<open>BT_JSON_CONVERTER\<close> with pairwise distinct
  field names, none of them the reserved \<^verbatim>\<open>"__type"\<close>, and the converters of its field
  types are round-trip partners on the members of the value; \<open>T\<close> is among the types
  registered (its registration returned, and equal TypeIds denote the same type). Then
  the registry holds the encoder and the decoder of \<open>T\<close> under \<^verbatim>\<open>typeid(T)\<close>, the two
  closures that \<^verbatim>\<open>toJson\<close> and \<^verbatim>\<open>fromJson(node, typeid(T))\<close> dispatch to; the encoder
  turns the erased value into a node when the destination is fresh; and whenever the
  encoder turns the erased value into a node, whatever the destination, the decoder
  turns that node into an erased value of \<open>T\<close> whose fields are all equal to those of
  the original.
\<close>

theorem macro_codec_round_trip:
  assumes "T = BT_JSON_CONVERTER tid dname dflt type_str decl"
    and "T \<in> set Ts"
    and "\<forall>T'\<in>set Ts. typeid T' = typeid T \<longrightarrow> T' = T"
    and "snd (addConverter T global_instance) = Ok ()"
    and "distinct (map fst decl)"
    and "''__type'' \<notin> fst ` set decl"
    and "list_all2 (\<lambda>d m. round_trip (snd d) m) decl ms"
  shows "umap_find (typeid T) (to_json_converters (register_all Ts global_instance)) =
           Some (to_converter T) \<and>
         umap_find (typeid T) (from_json_converters (register_all Ts global_instance)) =
           Some (from_converter T) \<and>
         (\<exists>node. to_converter T (Any (typeid T) (CStruct ms)) JNull = Ok node) \<and>
         (\<forall>destination node.
            to_converter T (Any (typeid T) (CStruct ms)) destination = Ok node \<longrightarrow>
            from_converter T node = Ok (Any (typeid T) (CStruct ms)))"
proof -
  have reg: "registered T (register_all Ts global_instance)"
    using assms(2,3,4) by (rule reached_registered)
  have rt: "round_trip T (CStruct ms)"
    unfolding assms(1) using assms(5,6,7) by (rule macro_round_trip)
  have fresh: "\<exists>node. to_converter T (Any (typeid T) (CStruct ms)) JNull = Ok node"
    using rt by (simp add: round_trip_def to_converter_def)
  have "from_converter T node = Ok (Any (typeid T) (CStruct ms))"
    if "to_converter T (Any (typeid T) (CStruct ms)) destination = Ok node" for destination node
  proof -
    have "to_json T destination (CStruct ms) = Ok node"
      using that by (simp add: to_converter_def)
    then have "from_json T node = Ok (CStruct ms)"
      using rt by (auto simp: round_trip_def)
    then show ?thesis by (simp add: from_converter_def)
  qed
  then show ?thesis
    using reg fresh by (simp add: registered_def)
qed

theorem macro_codec_round_trip_witness:
  "umap_find (typeid Point2D)
      (to_json_converters (register_all [ns_Point2D, Point2D] global_instance)) =
     Some (to_converter Point2D) \<and>
   umap_find (typeid Point2D)
      (from_json_converters (register_all [ns_Point2D, Point2D] global_instance)) =
     Some (from_converter Point2D) \<and>
   to_converter Point2D
      (Any (typeid Point2D) (CStruct [CDouble double_1_0, CDouble double_2_0])) JNull =
     Ok (JObject [(''x'', JNumberFloat double_1_0), (''y'', JNumberFloat double_2_0),
                  (''__type'', JString ''Point2D'')]) \<and>
   from_converter Point2D
      (JObject [(''x'', JNumberFloat double_1_0), (''y'', JNumberFloat double_2_0),
                (''__type'', JString ''Point2D'')]) =
     Ok (Any (typeid Point2D) (CStruct [CDouble double_1_0, CDouble double_2_0]))"
proof -
  have mem: "Point2D \<in> set [ns_Point2D, Point2D]" by simp
  have odr: "\<forall>T'\<in>set [ns_Point2D, Point2D]. typeid T' = typeid Point2D \<longrightarrow> T' = Point2D"
    by (simp add: Point2D_facts ns_Point2D_facts)
  have ok: "snd (addConverter Point2D global_instance) = Ok ()"
    by (simp add: addConverter_Point2D)
  have dist: "distinct (map fst [(''x'', double_type), (''y'', double_type)])" by simp
  have notag: "''__type'' \<notin> fst ` set [(''x'', double_type), (''y'', double_type)]" by simp
  have fields: "list_all2 (\<lambda>d m. round_trip (snd d) m)
      [(''x'', double_type), (''y'', double_type)] [CDouble double_1_0, CDouble double_2_0]"
    by (simp add: primitive_round_trip)
  have enc: "to_converter Point2D
      (Any (typeid Point2D) (CStruct [CDouble double_1_0, CDouble double_2_0])) JNull =
     Ok (JObject [(''x'', JNumberFloat double_1_0), (''y'', JNumberFloat double_2_0),
                  (''__type'', JString ''Point2D'')])"
    by (simp add: to_converter_def Point2D_def macro_eval)
  show ?thesis
    using enc macro_codec_round_trip [OF Point2D_def mem odr ok dist notag fields] by blast
qed

text \<open>
  C1, as stated, fails for a type that declares a field under the name \<^verbatim>\<open>"__type"\<close>:
  the stamp \<^verbatim>\<open>js["__type"] = #Type\<close> overwrites the field's element, and decoding reads
  the type's name back into the field.
\<close>

theorem tag_field_counterexample:
  "umap_find (typeid Tagged) (to_json_converters (register_all [Tagged] global_instance)) =
     Some (to_converter Tagged) \<and>
   umap_find (typeid Tagged) (from_json_converters (register_all [Tagged] global_instance)) =
     Some (from_converter Tagged) \<and>
   to_converter Tagged (Any (typeid Tagged) (CStruct [CString ''abc''])) JNull =
     Ok (JObject [(''__type'', JString ''Tagged'')]) \<and>
   from_converter Tagged (JObject [(''__type'', JString ''Tagged'')]) =
     Ok (Any (typeid Tagged) (CStruct [CString ''Tagged''])) \<and>
   toJson (register_all [Tagged] global_instance)
      (Any (typeid Tagged) (CStruct [CString ''abc''])) JNull =
     Ok (JObject [(''__type'', JString ''Tagged'')]) \<and>
   fromJson_type (register_all [Tagged] global_instance)
      (JObject [(''__type'', JString ''Tagged'')]) (typeid Tagged) \<noteq>
     Ok (Any (typeid Tagged) (CStruct [CString ''abc'']))"
proof -
  have facts: "typeid Tagged = 12" by (simp add: Tagged_facts)
  have enc: "to_converter Tagged (Any 12 (CStruct [CString ''abc''])) JNull =
      Ok (JObject [(''__type'', JString ''Tagged'')])"
    by (simp add: to_converter_def Tagged_def macro_eval)
  have dec: "from_converter Tagged (JObject [(''__type'', JString ''Tagged'')]) =
      Ok (Any 12 (CStruct [CString ''Tagged'']))"
    by (simp add: from_converter_def Tagged_def macro_eval)
  show ?thesis
    unfolding registry_Tagged facts
    using enc dec by (simp add: toJson_def fromJson_type_def umap_find_def)
qed

text \<open>
  C2. Calling \<^verbatim>\<open>addConverter<T>()\<close> twice, after any registrations \<open>Ts\<close> of a program in
  which equal TypeIds denote the same type, leaves exactly one entry for \<^verbatim>\<open>typeid(T)\<close>
  in each converter table, and the encoder and the decoder found there afterwards are the
  closures the second call builds. Nothing accumulates: the second call leaves the
  registry as the first one left it. (The calls are taken to return; \<^verbatim>\<open>insert\<close> keeps
  the entry of the first call, which is the closure of the second.)
\<close>

theorem addConverter_twice:
  assumes odr: "\<forall>T'\<in>set Ts. typeid T' = typeid T \<longrightarrow> T' = T"
    and ok: "snd (addConverter T (register_all (Ts @ [T]) global_instance)) = Ok ()"
  shows "umap_count (typeid T) (to_json_converters (register_all (Ts @ [T, T]) global_instance)) = 1 \<and>
         umap_count (typeid T) (from_json_converters (register_all (Ts @ [T, T]) global_instance)) = 1 \<and>
         umap_find (typeid T) (to_json_converters (register_all (Ts @ [T, T]) global_instance)) =
           Some (to_converter T) \<and>
         umap_find (typeid T) (from_json_converters (register_all (Ts @ [T, T]) global_instance)) =
           Some (from_converter T) \<and>
         register_all (Ts @ [T, T]) global_instance = register_all (Ts @ [T]) global_instance"
proof -
  let ?r2 = "register_all (Ts @ [T, T]) global_instance"
  let ?r1 = "register_all (Ts @ [T]) global_instance"
  have r2: "?r2 = fst (addConverter T ?r1)"
    using register_all_snoc [of "Ts @ [T]" T global_instance]
    by (simp add: RegisterJsonDefinition_def)
  have odr2: "\<forall>T'\<in>set (Ts @ [T, T]). typeid T' = typeid T \<longrightarrow> T' = T"
    using odr by auto
  have "umap_find (typeid T) (to_json_converters ?r2) \<noteq> None"
    unfolding r2 addConverter_to by (rule umap_find_insert_same)
  then obtain c where c: "umap_find (typeid T) (to_json_converters ?r2) = Some c" by blast
  have to_eq: "umap_find (typeid T) (to_json_converters ?r2) = Some (to_converter T)"
    using reached_to_converter [OF odr2 c] c by simp
  have "umap_find (typeid T) (from_json_converters ?r2) \<noteq> None"
    unfolding r2 using ok by (simp add: addConverter_from umap_find_insert_same)
  then obtain d where d: "umap_find (typeid T) (from_json_converters ?r2) = Some d" by blast
  have from_eq: "umap_find (typeid T) (from_json_converters ?r2) = Some (from_converter T)"
    using reached_from_converter [OF odr2 d] d by simp
  have ok1: "snd (addConverter T (register_all Ts global_instance)) = Ok ()"
    using ok addConverter_snd_indep [of T "register_all Ts global_instance" ?r1] by simp
  have r1: "?r1 = fst (addConverter T (register_all Ts global_instance))"
    by (simp add: register_all_snoc RegisterJsonDefinition_def)
  have same: "?r2 = ?r1"
    unfolding r2 unfolding r1 by (rule addConverter_again [OF ok1])
  have dist: "distinct (map fst (to_json_converters ?r2))"
    "distinct (map fst (from_json_converters ?r2))"
    using reached_distinct [of "Ts @ [T, T]"] by simp_all
  show ?thesis
    using umap_count_one [OF dist(1) to_eq] umap_count_one [OF dist(2) from_eq] to_eq from_eq same
    by simp
qed

theorem addConverter_twice_witness:
  "snd (addConverter Point2D (register_all ([ns_Point2D] @ [Point2D]) global_instance)) = Ok () \<and>
   umap_count (typeid Point2D)
     (to_json_converters (register_all ([ns_Point2D] @ [Point2D, Point2D]) global_instance)) = 1 \<and>
   umap_count (typeid Point2D)
     (from_json_converters (register_all ([ns_Point2D] @ [Point2D, Point2D]) global_instance)) = 1 \<and>
   umap_find (typeid Point2D)
     (to_json_converters (register_all ([ns_Point2D] @ [Point2D, Point2D]) global_instance)) =
       Some (to_converter Point2D) \<and>
   umap_find (typeid Point2D)
     (from_json_converters (register_all ([ns_Point2D] @ [Point2D, Point2D]) global_instance)) =
       Some (from_converter Point2D) \<and>
   register_all ([ns_Point2D] @ [Point2D, Point2D]) global_instance =
     register_all ([ns_Point2D] @ [Point2D]) global_instance"
proof -
  have odr: "\<forall>T'\<in>set [ns_Point2D]. typeid T' = typeid Point2D \<longrightarrow> T' = Point2D"
    by (simp add: ns_Point2D_facts Point2D_facts)
  have ok: "snd (addConverter Point2D (register_all ([ns_Point2D] @ [Point2D]) global_instance)) = Ok ()"
    by (simp add: addConverter_Point2D)
  show ?thesis
    using ok addConverter_twice [OF odr ok] by blast
qed

text \<open>
  C3, as amended. After any sequence of registrations a type name has at most one entry
  in the name table, and a name that maps to a TypeId keeps that TypeId through every
  later registration: when two registrations insert the same name for different types,
  the name maps to the TypeId of the earlier one.
\<close>

theorem type_names_first_kept:
  "umap_count n (type_names (register_all Ts global_instance)) \<le> 1 \<and>
   (\<forall>k. umap_find n (type_names (register_all Ts global_instance)) = Some k \<longrightarrow>
        umap_find n (type_names (register_all (Ts @ Ts') global_instance)) = Some k)"
proof -
  have "distinct (map fst (type_names (register_all Ts global_instance)))"
    using reached_distinct [of Ts] by simp
  then have "umap_count n (type_names (register_all Ts global_instance)) \<le> 1"
    by (rule umap_count_distinct)
  then show ?thesis
    by (simp add: register_all_append register_all_kept_names)
qed

theorem type_names_first_kept_witness:
  "umap_find ''Point2D'' (type_names (register_all [ns_Point2D] global_instance)) = Some 11 \<and>
   umap_find ''Point2D'' (type_names (register_all ([ns_Point2D] @ [Point2D]) global_instance)) =
     Some 11 \<and>
   umap_count ''Point2D'' (type_names (register_all [ns_Point2D] global_instance)) \<le> 1"
proof -
  have h: "umap_find ''Point2D'' (type_names (register_all [ns_Point2D] global_instance)) = Some 11"
    by (simp add: registry_ns umap_find_def)
  show ?thesis
    using h type_names_first_kept [of "''Point2D''" "[ns_Point2D]" "[Point2D]"] by blast
qed

text \<open>
  C3, as stated, fails: \<^verbatim>\<open>ns::Point2D\<close> and \<^verbatim>\<open>Point2D\<close> both insert the name
  \<^verbatim>\<open>"Point2D"\<close>; registered in this order, the name does not map to the TypeId of the
  later registration.
\<close>

theorem type_names_overwrite_counterexample:
  "umap_find ''Point2D'' (type_names (register_all [ns_Point2D] global_instance)) =
     Some (typeid ns_Point2D) \<and>
   umap_find ''Point2D'' (type_names (register_all [Point2D] global_instance)) =
     Some (typeid Point2D) \<and>
   typeid ns_Point2D \<noteq> typeid Point2D \<and>
   umap_find ''Point2D'' (type_names (register_all [ns_Point2D, Point2D] global_instance)) \<noteq>
     Some (typeid Point2D)"
  by (simp add: registry_ns registry_plain registry_ns_then_plain umap_find_def
      Point2D_facts ns_Point2D_facts)

text \<open>
  C4. A TypeId that was never registered has no encoder in the registry, and for an
  erased value of such a TypeId \<^verbatim>\<open>toJson(any, destination)\<close> fails with the
  unregistered-type error: an error result, no node and no fault.
\<close>

theorem toJson_unregistered:
  assumes "t \<notin> typeid ` set Ts"
  shows "umap_find t (to_json_converters (register_all Ts global_instance)) = None \<and>
         toJson (register_all Ts global_instance) (Any t v) dst = Err UnregisteredTypeError"
proof -
  have "t \<notin> fst ` set (to_json_converters (register_all Ts global_instance))"
    using assms reached_entries_to [of Ts] by force
  then have "umap_find t (to_json_converters (register_all Ts global_instance)) = None"
    by (simp add: umap_find_None_iff)
  then show ?thesis by (simp add: toJson_def)
qed

theorem toJson_unregistered_witness:
  "typeid double_type \<notin> typeid ` set [Point2D] \<and>
   umap_find (typeid double_type) (to_json_converters (register_all [Point2D] global_instance)) =
     None \<and>
   toJson (register_all [Point2D] global_instance) (Any (typeid double_type) (CDouble double_1_0)) JNull =
     Err UnregisteredTypeError"
proof -
  have h: "typeid double_type \<notin> typeid ` set [Point2D]"
    by (simp add: Point2D_facts double_type_def)
  show ?thesis
    using h toJson_unregistered [OF h] by simp
qed

text \<open>
  C5. On a node that is no object with a \<^verbatim>\<open>"__type"\<close> string field the type-inferred
  \<^verbatim>\<open>fromJson(node)\<close> fails with the missing-type-tag error. With the tag it proceeds
  to the codec dispatch exactly when the tag resolves in the name table, and fails with
  the unknown-type-name error otherwise.
\<close>

theorem fromJson_requires_tag:
  "((\<nexists>members s. source = JObject members \<and> map_of members ''__type'' = Some (JString s)) \<longrightarrow>
      fromJson self source = Err MissingTypeTagError) \<and>
   (\<forall>members s. source = JObject members \<and> map_of members ''__type'' = Some (JString s) \<longrightarrow>
      fromJson self source =
        (case umap_find s (type_names self) of
           None \<Rightarrow> Err UnknownTypeNameError
         | Some t \<Rightarrow> fromJson_type self source t))"
  by (auto simp: fromJson_def type_tag_None type_tag_object simp del: not_ex)

theorem fromJson_requires_tag_witness:
  "fromJson (RegisterJsonDefinition Point2D global_instance)
     (JObject [(''x'', JNumberFloat double_1_0), (''y'', JNumberFloat double_2_0)]) =
     Err MissingTypeTagError"
proof -
  have "\<nexists>members s.
      JObject [(''x'', JNumberFloat double_1_0), (''y'', JNumberFloat double_2_0)] = JObject members \<and>
      map_of members ''__type'' = Some (JString s)"
    by auto
  then show ?thesis
    using fromJson_requires_tag [of "JObject [(''x'', JNumberFloat double_1_0), (''y'', JNumberFloat double_2_0)]"
        "RegisterJsonDefinition Point2D global_instance"]
    by blast
qed

text \<open>
  C6, as amended. \<open>T\<close> is declared through the macro and registered, and the node lacks a
  field name declared for \<open>T\<close>. Then the decoder the registry holds for \<open>T\<close> never
  returns a value: no default fills the absent field. When the node is an object and the
  fields declared before the absent one are read, the decoder ends in the missing-field
  error naming that field. When the node is no object, the decoder ends in the JSON type
  error of its first lookup, and \<^verbatim>\<open>fromJson(node, typeid(T))\<close> returns that error to the
  caller as a tagged result. When the converters of the field types of \<open>T\<close> end by
  returning or by raising, the decoder ends in an error, that of the first step of the
  walk that fails, and \<^verbatim>\<open>fromJson(node, typeid(T))\<close> returns that error to the caller as
  a tagged result, which is no fault. On an object the first step that fails is found
  after the fields that are read, all of them present in the node: it is the lookup of a
  declared field that is absent, with the missing-field error naming it, or the
  conversion of a present field declared before the absent one, with the error of that
  conversion.
\<close>

theorem decode_missing_field:
  assumes "T = BT_JSON_CONVERTER tid dname dflt type_str decl"
    and "T \<in> set Ts"
    and "\<forall>T'\<in>set Ts. typeid T' = typeid T \<longrightarrow> T' = T"
    and "snd (addConverter T global_instance) = Ok ()"
    and "name \<in> fst ` set decl"
    and "\<not> js_contains node name"
  shows "umap_find (typeid T) (from_json_converters (register_all Ts global_instance)) =
           Some (from_converter T) \<and>
         (\<forall>a. from_converter T node \<noteq> Ok a) \<and>
         (\<forall>pre ft post vs members.
            decl = pre @ (name, ft) # post \<and> node = JObject members \<and>
            from_json_fields pre node = Ok vs \<longrightarrow>
            from_converter T node = Err (MissingFieldError name)) \<and>
         ((\<nexists>members. node = JObject members) \<longrightarrow>
            (from_converter T node = Err JsonTypeError \<and>
             fromJson_type_returns (register_all Ts global_instance) node (typeid T) =
               Ok (Unexpected JsonTypeError))) \<and>
         ((\<forall>d\<in>set decl. \<forall>j. from_json (snd d) j \<noteq> Fault) \<longrightarrow>
            ((\<exists>e. from_converter T node = Err e \<and>
                  fromJson_type_returns (register_all Ts global_instance) node (typeid T) =
                    Ok (Unexpected e)) \<and>
             ((\<exists>members. node = JObject members) \<longrightarrow>
                (\<exists>pre n ft post vs.
                   decl = pre @ (n, ft) # post \<and> from_json_fields pre node = Ok vs \<and>
                   (\<forall>m\<in>fst ` set pre. js_contains node m) \<and>
                   ((\<not> js_contains node n \<and>
                     from_converter T node = Err (MissingFieldError n)) \<or>
                    (\<exists>el e. js_at node n = Ok el \<and> from_json ft el = Err e \<and>
                       name \<in> fst ` set post \<and> from_converter T node = Err e))))))"
proof -
  let ?R = "register_all Ts global_instance"
  have reg: "registered T ?R"
    using assms(2,3,4) by (rule reached_registered)
  have stored: "umap_find (typeid T) (from_json_converters ?R) = Some (from_converter T)"
    using reg by (simp add: registered_def)
  have call: "from_converter T node =
      and_then (and_then (from_json_fields decl node) (\<lambda>vs. Ok (CStruct vs)))
        (\<lambda>v. Ok (Any (typeid T) v))"
    by (simp add: from_converter_def assms(1) BT_JSON_CONVERTER_def macro_from_json_def)
  have walk_err: "from_converter T node = Err e" if "from_json_fields decl node = Err e" for e
    unfolding call using that by simp
  have returns: "fromJson_type_returns ?R node (typeid T) = Ok (Unexpected e)"
    if "from_converter T node = Err e" for e
    using that by (simp add: fromJson_type_returns_def registered_fromJson_type [OF reg])
  have no_value: "\<forall>vs. from_json_fields decl node \<noteq> Ok vs"
    using from_json_fields_missing [OF assms(5,6)] by blast
  then have never: "\<forall>a. from_converter T node \<noteq> Ok a"
    unfolding call by (auto simp: and_then_eq_Ok)
  have first: "from_converter T node = Err (MissingFieldError name)"
    if "decl = pre @ (name, ft) # post" "node = JObject members" "from_json_fields pre node = Ok vs"
    for pre ft post vs members
  proof -
    have "js_at node name = Err (MissingFieldError name)"
      using assms(6) that(2) by (simp add: not_contains_at_object)
    then have "from_json_fields ((name, ft) # post) node = Err (MissingFieldError name)"
      by simp
    then have "from_json_fields decl node = Err (MissingFieldError name)"
      unfolding that(1) from_json_fields_append using that(3) by simp
    then show ?thesis by (rule walk_err)
  qed
  have other: "from_converter T node = Err JsonTypeError \<and>
      fromJson_type_returns ?R node (typeid T) = Ok (Unexpected JsonTypeError)"
    if no_object: "\<nexists>members. node = JObject members"
  proof -
    from assms(5) obtain n ft rest where decl: "decl = (n, ft) # rest"
      by (cases decl) auto
    have "js_at node n = Err JsonTypeError"
      using no_object by (rule js_at_not_object)
    then have "from_json_fields decl node = Err JsonTypeError"
      by (simp add: decl)
    then have "from_converter T node = Err JsonTypeError" by (rule walk_err)
    then show ?thesis using returns by simp
  qed
  have where_it_fails: "\<exists>pre n ft post vs.
      decl = pre @ (n, ft) # post \<and> from_json_fields pre node = Ok vs \<and>
      (\<forall>m\<in>fst ` set pre. js_contains node m) \<and>
      ((\<exists>e. js_at node n = Err e \<and> from_converter T node = Err e) \<or>
       (\<exists>el e. js_at node n = Ok el \<and> from_json ft el = Err e \<and>
          name \<in> fst ` set post \<and> from_converter T node = Err e))"
    if no_fault: "\<forall>d\<in>set decl. \<forall>j. from_json (snd d) j \<noteq> Fault"
  proof -
    from from_json_fields_first_failure [of decl node] no_value
    obtain pre n ft post vs where
      split: "decl = pre @ (n, ft) # post" and pre: "from_json_fields pre node = Ok vs"
      and fail: "(\<exists>e. js_at node n = Err e \<and> from_json_fields decl node = Err e) \<or>
        (\<exists>el e. js_at node n = Ok el \<and> from_json ft el = Err e \<and>
           from_json_fields decl node = Err e) \<or>
        (\<exists>el. js_at node n = Ok el \<and> from_json ft el = Fault \<and>
           from_json_fields decl node = Fault)"
      by blast
    have present: "\<forall>m\<in>fst ` set pre. js_contains node m"
      using from_json_fields_present [OF pre] by blast
    have ft: "from_json ft el \<noteq> Fault" for el
      using no_fault split by simp
    have later: "name \<in> fst ` set post" if "js_at node n = Ok el" for el
    proof -
      have "name \<noteq> n" using that not_contains_at [OF assms(6), of el] by blast
      moreover have "name \<notin> fst ` set pre" using present assms(6) by blast
      ultimately show ?thesis using assms(5) split by auto
    qed
    from fail ft later walk_err
    have "(\<exists>e. js_at node n = Err e \<and> from_converter T node = Err e) \<or>
       (\<exists>el e. js_at node n = Ok el \<and> from_json ft el = Err e \<and>
          name \<in> fst ` set post \<and> from_converter T node = Err e)"
      by blast
    with split pre present show ?thesis by blast
  qed
  have tagged: "(\<exists>e. from_converter T node = Err e \<and>
        fromJson_type_returns ?R node (typeid T) = Ok (Unexpected e)) \<and>
      ((\<exists>members. node = JObject members) \<longrightarrow>
        (\<exists>pre n ft post vs.
           decl = pre @ (n, ft) # post \<and> from_json_fields pre node = Ok vs \<and>
           (\<forall>m\<in>fst ` set pre. js_contains node m) \<and>
           ((\<not> js_contains node n \<and> from_converter T node = Err (MissingFieldError n)) \<or>
            (\<exists>el e. js_at node n = Ok el \<and> from_json ft el = Err e \<and>
               name \<in> fst ` set post \<and> from_converter T node = Err e))))"
    if no_fault: "\<forall>d\<in>set decl. \<forall>j. from_json (snd d) j \<noteq> Fault"
  proof -
    from where_it_fails [OF no_fault] obtain pre n ft post vs where
      split: "decl = pre @ (n, ft) # post" and pre: "from_json_fields pre node = Ok vs"
      and present: "\<forall>m\<in>fst ` set pre. js_contains node m"
      and fail: "(\<exists>e. js_at node n = Err e \<and> from_converter T node = Err e) \<or>
       (\<exists>el e. js_at node n = Ok el \<and> from_json ft el = Err e \<and>
          name \<in> fst ` set post \<and> from_converter T node = Err e)"
      by blast
    from fail obtain e where e: "from_converter T node = Err e" by blast
    have one: "\<exists>e. from_converter T node = Err e \<and>
        fromJson_type_returns ?R node (typeid T) = Ok (Unexpected e)"
      using e returns by blast
    have two: "\<exists>pre n ft post vs.
           decl = pre @ (n, ft) # post \<and> from_json_fields pre node = Ok vs \<and>
           (\<forall>m\<in>fst ` set pre. js_contains node m) \<and>
           ((\<not> js_contains node n \<and> from_converter T node = Err (MissingFieldError n)) \<or>
            (\<exists>el e. js_at node n = Ok el \<and> from_json ft el = Err e \<and>
               name \<in> fst ` set post \<and> from_converter T node = Err e))"
      if "node = JObject members" for members
    proof -
      have "(\<not> js_contains node n \<and> from_converter T node = Err (MissingFieldError n)) \<or>
            (\<exists>el e. js_at node n = Ok el \<and> from_json ft el = Err e \<and>
               name \<in> fst ` set post \<and> from_converter T node = Err e)"
        using fail js_at_Err_object [of members n] that by auto
      with split pre present show ?thesis by blast
    qed
    show ?thesis using one two by blast
  qed
  show ?thesis
    using stored never first other tagged by blast
qed

theorem decode_missing_field_witness:
  "\<not> js_contains (JObject [(''x'', JNumberFloat double_1_0)]) ''y'' \<and>
   umap_find (typeid Point2D) (from_json_converters (register_all [Point2D] global_instance)) =
     Some (from_converter Point2D) \<and>
   from_converter Point2D (JObject [(''x'', JNumberFloat double_1_0)]) =
     Err (MissingFieldError ''y'') \<and>
   fromJson_type_returns (register_all [Point2D] global_instance)
     (JObject [(''x'', JNumberFloat double_1_0)]) (typeid Point2D) =
     Ok (Unexpected (MissingFieldError ''y''))"
proof -
  let ?node = "JObject [(''x'', JNumberFloat double_1_0)]"
  have mem: "Point2D \<in> set [Point2D]" by simp
  have odr: "\<forall>T'\<in>set [Point2D]. typeid T' = typeid Point2D \<longrightarrow> T' = Point2D" by simp
  have ok: "snd (addConverter Point2D global_instance) = Ok ()"
    by (simp add: addConverter_Point2D)
  have name: "''y'' \<in> fst ` set [(''x'', double_type), (''y'', double_type)]" by simp
  have absent: "\<not> js_contains ?node ''y''"
    by (simp add: js_contains_def)
  have pre: "from_json_fields [(''x'', double_type)] ?node = Ok [CDouble double_1_0]"
    by (simp add: js_at_def double_type_def)
  have split: "[(''x'', double_type), (''y'', double_type)] =
      [(''x'', double_type)] @ (''y'', double_type) # []" by simp
  have no_fault: "\<forall>d\<in>set [(''x'', double_type), (''y'', double_type)].
      \<forall>j. from_json (snd d) j \<noteq> Fault"
    by (simp add: primitive_from_json_never_faults)
  note at_point = decode_missing_field [OF Point2D_def mem odr ok name absent]
  have err: "from_converter Point2D ?node = Err (MissingFieldError ''y'')"
    using at_point pre split by blast
  have "\<exists>e. from_converter Point2D ?node = Err e \<and>
      fromJson_type_returns (register_all [Point2D] global_instance) ?node (typeid Point2D) =
        Ok (Unexpected e)"
    using at_point no_fault by blast
  then have ret: "fromJson_type_returns (register_all [Point2D] global_instance) ?node
      (typeid Point2D) = Ok (Unexpected (MissingFieldError ''y''))"
    using err by auto
  show ?thesis using absent at_point err ret by blast
qed

text \<open>
  C6, as stated, fails on the kind of the error: for \<^verbatim>\<open>Point2D\<close> and the node
  \<^verbatim>\<open>{"x":"hello"}\<close>, which lacks \<open>y\<close>, the walk raises at \<open>x\<close>, whose element is no
  number, before it reaches the absent field.
\<close>

theorem missing_field_type_error_counterexample:
  "\<not> js_contains (JObject [(''x'', JString ''hello'')]) ''y'' \<and>
   umap_find (typeid Point2D)
     (from_json_converters (RegisterJsonDefinition Point2D global_instance)) =
     Some (from_converter Point2D) \<and>
   from_converter Point2D (JObject [(''x'', JString ''hello'')]) = Err JsonTypeError \<and>
   fromJson_type (RegisterJsonDefinition Point2D global_instance)
     (JObject [(''x'', JString ''hello'')]) (typeid Point2D) = Err JsonTypeError"
proof -
  have dec: "from_converter Point2D (JObject [(''x'', JString ''hello'')]) = Err JsonTypeError"
    by (simp add: from_converter_def Point2D_def macro_eval)
  show ?thesis
    unfolding Point2D_registry Point2D_facts
    using dec by (simp add: fromJson_type_def umap_find_def js_contains_def)
qed

text \<open>
  C7, as amended. The stored encoder closure checks nothing itself: invoked on an erased
  value whose runtime TypeId is not that of \<open>T\<close>, it dereferences the null pointer the
  cast returns, which is a fault and no type-mismatch error. Every closure that
  registrations store under a TypeId is the encoder of a type with that TypeId, so on a
  value found by its TypeId the cast succeeds and the closure is \<open>to_json\<close> of that type.
\<close>

theorem to_converter_unguarded:
  "(t \<noteq> typeid T \<longrightarrow> to_converter T (Any t v) dst = Fault) \<and>
   (\<forall>c. umap_find t (to_json_converters (register_all Ts global_instance)) = Some c \<longrightarrow>
        (\<exists>T'\<in>set Ts. typeid T' = t \<and> c = to_converter T' \<and>
                     c (Any t v) dst = to_json T' dst v))"
proof -
  have "to_converter T (Any t v) dst = Fault" if "t \<noteq> typeid T"
    using that by (simp add: to_converter_def)
  moreover have "\<exists>T'\<in>set Ts. typeid T' = t \<and> c = to_converter T' \<and>
      c (Any t v) dst = to_json T' dst v"
    if "umap_find t (to_json_converters (register_all Ts global_instance)) = Some c" for c
  proof -
    have "(t, c) \<in> (\<lambda>T. (typeid T, to_converter T)) ` set Ts"
      using umap_find_entry [OF that] reached_entries_to [of Ts] by blast
    then obtain T' where T': "T' \<in> set Ts" "typeid T' = t" "c = to_converter T'"
      by force
    then have "c (Any t v) dst = to_json T' dst v"
      by (simp add: to_converter_def)
    with T' show ?thesis by blast
  qed
  ultimately show ?thesis by blast
qed

theorem to_converter_unguarded_witness:
  "typeid double_type \<noteq> typeid Point2D \<and>
   to_converter Point2D (Any (typeid double_type) (CDouble double_1_0)) JNull = Fault"
proof -
  have h: "typeid double_type \<noteq> typeid Point2D"
    by (simp add: Point2D_facts double_type_def)
  show ?thesis
    using h to_converter_unguarded [of "typeid double_type" Point2D "CDouble double_1_0" JNull "[]"]
    by blast
qed

text \<open>
  C7, as stated, fails: the encoder stored for \<^verbatim>\<open>Point2D\<close>, invoked on an erased
  \<^verbatim>\<open>double\<close>, ends in the fault and not in a type-mismatch error.
\<close>

theorem to_converter_no_check_counterexample:
  "(case umap_find (typeid Point2D)
           (to_json_converters (RegisterJsonDefinition Point2D global_instance)) of
      None \<Rightarrow> False
    | Some conv \<Rightarrow>
        conv (Any (typeid double_type) (CDouble double_1_0)) JNull = Fault \<and>
        conv (Any (typeid double_type) (CDouble double_1_0)) JNull \<noteq> Err TypeMismatchError)"
  unfolding Point2D_registry
  by (simp add: umap_find_def Point2D_facts to_converter_def double_type_def)

text \<open>
  C8. \<^verbatim>\<open>toJson\<close> (on an erased value, and the member template on a typed one) and
  both \<^verbatim>\<open>fromJson\<close> leave the registry, and so its three tables, as they found it, for
  every registry and every input; the registry after any sequence of calls is the
  registry after the registrations among them.
\<close>

theorem only_registration_mutates:
  "fst (perform (Call_toJson any destination) self) = self \<and>
   fst (perform (Call_toJson_val T val destination) self) = self \<and>
   fst (perform (Call_fromJson source) self) = self \<and>
   fst (perform (Call_fromJson_type source t) self) = self \<and>
   run calls self = run (filter is_registration calls) self"
  using run_registrations [of calls self] by simp

theorem only_registration_mutates_witness:
  "fst (perform (Call_toJson (Any (typeid Point2D) (CStruct [CDouble double_1_0, CDouble double_2_0])) JNull)
         global_instance) = global_instance \<and>
   run [Call_fromJson JNull, Call_addConverter Point2D, Call_toJson (Any (typeid Point2D) (CStruct [])) JNull]
       global_instance =
     RegisterJsonDefinition Point2D global_instance \<and>
   RegisterJsonDefinition Point2D global_instance \<noteq> global_instance"
proof -
  have "run (filter is_registration
          [Call_fromJson JNull, Call_addConverter Point2D,
           Call_toJson (Any (typeid Point2D) (CStruct [])) JNull]) global_instance =
        RegisterJsonDefinition Point2D global_instance"
    by (simp add: run_def RegisterJsonDefinition_def)
  moreover have "RegisterJsonDefinition Point2D global_instance \<noteq> global_instance"
    unfolding Point2D_registry by (simp add: global_instance_def)
  ultimately show ?thesis
    using only_registration_mutates
      [of "Any (typeid Point2D) (CStruct [CDouble double_1_0, CDouble double_2_0])" JNull
          global_instance Point2D "CStruct []" JNull 0
          "[Call_fromJson JNull, Call_addConverter Point2D,
            Call_toJson (Any (typeid Point2D) (CStruct [])) JNull]"]
    by simp
qed

text \<open>
  C9, as amended. \<^verbatim>\<open>Point2D\<close> with the double fields \<open>x\<close> and \<open>y\<close> is declared with
  \<^verbatim>\<open>BT_JSON_CONVERTER\<close> and registered, among other types before and after it, none of
  them sharing its TypeId, and no type registered before it has taken the name
  \<^verbatim>\<open>"Point2D"\<close> for another TypeId. Encoding the value \<open>x = 1.0\<close>, \<open>y = 2.0\<close> into a
  fresh node gives the object with the members \<open>x = 1.0\<close>, \<open>y = 2.0\<close> and
  \<open>__type = "Point2D"\<close>, through the stored encoder and through \<^verbatim>\<open>toJson\<close>; the name
  \<^verbatim>\<open>"Point2D"\<close> maps to the TypeId of \<^verbatim>\<open>Point2D\<close>; and the type-inferred
  \<^verbatim>\<open>fromJson(node)\<close> on that node returns the original value, the caller never naming
  the TypeId. The members are read by key: the same object with its members in key order
  decodes alike.
\<close>

theorem Point2D_name_inference:
  assumes "\<forall>T'\<in>set (Ts @ Ts'). typeid T' = typeid Point2D \<longrightarrow> T' = Point2D"
    and "\<forall>k. umap_find ''Point2D'' (type_names (register_all Ts global_instance)) = Some k \<longrightarrow>
           k = typeid Point2D"
  shows "to_converter Point2D
      (Any (typeid Point2D) (CStruct [CDouble double_1_0, CDouble double_2_0])) JNull =
     Ok (JObject [(''x'', JNumberFloat double_1_0), (''y'', JNumberFloat double_2_0),
                  (''__type'', JString ''Point2D'')]) \<and>
   umap_find ''Point2D'' (type_names (register_all (Ts @ Point2D # Ts') global_instance)) =
     Some (typeid Point2D) \<and>
   toJson (register_all (Ts @ Point2D # Ts') global_instance)
      (Any (typeid Point2D) (CStruct [CDouble double_1_0, CDouble double_2_0])) JNull =
     Ok (JObject [(''x'', JNumberFloat double_1_0), (''y'', JNumberFloat double_2_0),
                  (''__type'', JString ''Point2D'')]) \<and>
   fromJson (register_all (Ts @ Point2D # Ts') global_instance)
      (JObject [(''x'', JNumberFloat double_1_0), (''y'', JNumberFloat double_2_0),
                (''__type'', JString ''Point2D'')]) =
     Ok (Any (typeid Point2D) (CStruct [CDouble double_1_0, CDouble double_2_0])) \<and>
   fromJson (register_all (Ts @ Point2D # Ts') global_instance)
      (JObject [(''__type'', JString ''Point2D''), (''x'', JNumberFloat double_1_0),
                (''y'', JNumberFloat double_2_0)]) =
     Ok (Any (typeid Point2D) (CStruct [CDouble double_1_0, CDouble double_2_0]))"
proof -
  let ?R = "register_all (Ts @ Point2D # Ts') global_instance"
  let ?v = "CStruct [CDouble double_1_0, CDouble double_2_0]"
  let ?node = "JObject [(''x'', JNumberFloat double_1_0), (''y'', JNumberFloat double_2_0),
                  (''__type'', JString ''Point2D'')]"
  let ?node' = "JObject [(''__type'', JString ''Point2D''), (''x'', JNumberFloat double_1_0),
                (''y'', JNumberFloat double_2_0)]"
  have enc: "to_converter Point2D (Any (typeid Point2D) ?v) JNull = Ok ?node"
    by (simp add: to_converter_def Point2D_def macro_eval)
  have enc': "to_json Point2D JNull ?v = Ok ?node"
    by (simp add: Point2D_def macro_eval)
  have dec: "from_converter Point2D ?node = Ok (Any (typeid Point2D) ?v)"
    "from_converter Point2D ?node' = Ok (Any (typeid Point2D) ?v)"
    by (simp_all add: from_converter_def Point2D_def macro_eval)
  have mem: "Point2D \<in> set (Ts @ Point2D # Ts')" by simp
  have odr: "\<forall>T'\<in>set (Ts @ Point2D # Ts'). typeid T' = typeid Point2D \<longrightarrow> T' = Point2D"
    using assms(1) by auto
  have ok: "snd (addConverter Point2D global_instance) = Ok ()"
    by (simp add: addConverter_Point2D)
  have reg: "registered Point2D ?R"
    using mem odr ok by (rule reached_registered)
  have R: "?R = register_all Ts' (RegisterJsonDefinition Point2D (register_all Ts global_instance))"
    by (simp add: register_all_append register_all_Cons)
  have "umap_find ''Point2D''
      (type_names (RegisterJsonDefinition Point2D (register_all Ts global_instance))) =
      Some (typeid Point2D)"
    using assms(2) by (simp add: Register_Point2D_name Point2D_facts split: option.splits)
  then have name: "umap_find ''Point2D'' (type_names ?R) = Some (typeid Point2D)"
    unfolding R by (rule register_all_kept_names)
  have encoded: "toJson ?R (Any (typeid Point2D) ?v) JNull = Ok ?node"
    using enc' by (simp add: registered_toJson [OF reg])
  have tags: "type_tag ?node = Some ''Point2D''" "type_tag ?node' = Some ''Point2D''"
    by (simp_all add: type_tag_def)
  have readback: "fromJson ?R ?node = Ok (Any (typeid Point2D) ?v)"
    "fromJson ?R ?node' = Ok (Any (typeid Point2D) ?v)"
    using dec by (simp_all add: fromJson_def tags name registered_fromJson_type [OF reg])
  show ?thesis using enc name encoded readback by simp
qed

theorem Point2D_name_inference_witness:
  "umap_find ''Point2D'' (type_names (register_all [Point2D, ns_Point2D] global_instance)) =
     Some (typeid Point2D) \<and>
   toJson (register_all [Point2D, ns_Point2D] global_instance)
      (Any (typeid Point2D) (CStruct [CDouble double_1_0, CDouble double_2_0])) JNull =
     Ok (JObject [(''x'', JNumberFloat double_1_0), (''y'', JNumberFloat double_2_0),
                  (''__type'', JString ''Point2D'')]) \<and>
   fromJson (register_all [Point2D, ns_Point2D] global_instance)
      (JObject [(''x'', JNumberFloat double_1_0), (''y'', JNumberFloat double_2_0),
                (''__type'', JString ''Point2D'')]) =
     Ok (Any (typeid Point2D) (CStruct [CDouble double_1_0, CDouble double_2_0]))"
proof -
  have odr: "\<forall>T'\<in>set ([] @ [ns_Point2D]). typeid T' = typeid Point2D \<longrightarrow> T' = Point2D"
    by (simp add: ns_Point2D_facts Point2D_facts)
  have free: "\<forall>k. umap_find ''Point2D'' (type_names (register_all [] global_instance)) = Some k \<longrightarrow>
      k = typeid Point2D"
    by (simp add: register_all_Nil global_instance_def umap_find_def)
  show ?thesis
    using Point2D_name_inference [OF odr free] by simp
qed

text \<open>
  C9, as stated, fails when the name is taken: \<^verbatim>\<open>ns::Point2D\<close>, declared with the macro
  inside its namespace, carries the tag \<^verbatim>\<open>"Point2D"\<close> too. Registered before
  \<^verbatim>\<open>Point2D\<close>, it keeps the name; \<^verbatim>\<open>Point2D\<close> is registered, its converters are stored
  and \<^verbatim>\<open>toJson\<close> gives the same node, but the type-inferred \<^verbatim>\<open>fromJson(node)\<close> returns
  a value of \<^verbatim>\<open>ns::Point2D\<close>, which is not the original.
\<close>

theorem Point2D_name_taken_counterexample:
  "umap_find (typeid Point2D)
     (to_json_converters (register_all [ns_Point2D, Point2D] global_instance)) =
     Some (to_converter Point2D) \<and>
   umap_find (typeid Point2D)
     (from_json_converters (register_all [ns_Point2D, Point2D] global_instance)) =
     Some (from_converter Point2D) \<and>
   toJson (register_all [ns_Point2D, Point2D] global_instance)
      (Any (typeid Point2D) (CStruct [CDouble double_1_0, CDouble double_2_0])) JNull =
     Ok (JObject [(''x'', JNumberFloat double_1_0), (''y'', JNumberFloat double_2_0),
                  (''__type'', JString ''Point2D'')]) \<and>
   umap_find ''Point2D'' (type_names (register_all [ns_Point2D, Point2D] global_instance)) =
     Some (typeid ns_Point2D) \<and>
   typeid ns_Point2D \<noteq> typeid Point2D \<and>
   fromJson (register_all [ns_Point2D, Point2D] global_instance)
      (JObject [(''x'', JNumberFloat double_1_0), (''y'', JNumberFloat double_2_0),
                (''__type'', JString ''Point2D'')]) =
     Ok (Any (typeid ns_Point2D) (CStruct [CDouble double_1_0, CDouble double_2_0])) \<and>
   fromJson (register_all [ns_Point2D, Point2D] global_instance)
      (JObject [(''x'', JNumberFloat double_1_0), (''y'', JNumberFloat double_2_0),
                (''__type'', JString ''Point2D'')]) \<noteq>
     Ok (Any (typeid Point2D) (CStruct [CDouble double_1_0, CDouble double_2_0]))"
proof -
  have enc: "to_converter Point2D
      (Any 10 (CStruct [CDouble double_1_0, CDouble double_2_0])) JNull =
     Ok (JObject [(''x'', JNumberFloat double_1_0), (''y'', JNumberFloat double_2_0),
                  (''__type'', JString ''Point2D'')])"
    by (simp add: to_converter_def Point2D_def macro_eval)
  have dec: "from_converter ns_Point2D
      (JObject [(''x'', JNumberFloat double_1_0), (''y'', JNumberFloat double_2_0),
                (''__type'', JString ''Point2D'')]) =
     Ok (Any 11 (CStruct [CDouble double_1_0, CDouble double_2_0]))"
    by (simp add: from_converter_def ns_Point2D_def macro_eval)
  show ?thesis
    unfolding registry_ns_then_plain Point2D_facts ns_Point2D_facts
    using enc dec
    by (simp add: toJson_def fromJson_def fromJson_type_def type_tag_def umap_find_def)
qed

text \<open>
  C10, as amended. \<^verbatim>\<open>addConverter<T>()\<close> converts the default instance \<^verbatim>\<open>T{}\<close> to JSON
  during the registration itself: an exception of that conversion is the exception of the
  registration. When the registration returns, the demangled name of \<open>T\<close> is a key of
  the name table, and so is the string under \<^verbatim>\<open>"__type"\<close> in the JSON of the default
  instance when there is one; each of the two maps to the TypeId it had before the call
  when it was a key already, and to \<^verbatim>\<open>typeid(T)\<close> otherwise.
\<close>

theorem addConverter_names:
  "(\<forall>e. to_json T JNull (default_ctor T) = Err e \<longrightarrow> snd (addConverter T self) = Err e) \<and>
   (snd (addConverter T self) = Ok () \<longrightarrow>
      (\<exists>js. to_json T JNull (default_ctor T) = Ok js \<and>
         (\<forall>s. type_tag js = Some s \<longrightarrow>
            umap_find s (type_names (fst (addConverter T self))) =
              (case umap_find s (type_names self) of
                 Some k \<Rightarrow> Some k
               | None \<Rightarrow> Some (typeid T)))) \<and>
      umap_find (demangle T) (type_names (fst (addConverter T self))) =
        (case umap_find (demangle T) (type_names self) of
           Some k \<Rightarrow> Some k
         | None \<Rightarrow> Some (typeid T)))"
proof (intro conjI allI impI)
  fix e assume "to_json T JNull (default_ctor T) = Err e"
  then show "snd (addConverter T self) = Err e" by (rule addConverter_default_Err)
next
  assume ok: "snd (addConverter T self) = Ok ()"
  then obtain js where js: "to_json T JNull (default_ctor T) = Ok js"
    using addConverter_Ok_default by blast
  note names = addConverter_names_Ok [OF ok js]
  have "umap_find s (type_names (fst (addConverter T self))) =
          (case umap_find s (type_names self) of Some k \<Rightarrow> Some k | None \<Rightarrow> Some (typeid T))"
    if "type_tag js = Some s" for s
    unfolding names using that
    by (simp add: umap_find_insert split: option.splits)
  with js show "\<exists>js. to_json T JNull (default_ctor T) = Ok js \<and>
         (\<forall>s. type_tag js = Some s \<longrightarrow>
            umap_find s (type_names (fst (addConverter T self))) =
              (case umap_find s (type_names self) of
                 Some k \<Rightarrow> Some k
               | None \<Rightarrow> Some (typeid T)))"
    by blast
  show "umap_find (demangle T) (type_names (fst (addConverter T self))) =
        (case umap_find (demangle T) (type_names self) of
           Some k \<Rightarrow> Some k
         | None \<Rightarrow> Some (typeid T))"
    unfolding names
    by (cases "type_tag js") (auto simp: umap_find_insert split: option.splits)
qed

theorem addConverter_names_witness:
  "snd (addConverter Point2D global_instance) = Ok () \<and>
   umap_find (demangle Point2D) (type_names global_instance) = None \<and>
   umap_find (demangle Point2D) (type_names (fst (addConverter Point2D global_instance))) =
     Some (typeid Point2D)"
proof -
  have ok: "snd (addConverter Point2D global_instance) = Ok ()"
    by (simp add: addConverter_Point2D)
  have free: "umap_find (demangle Point2D) (type_names global_instance) = None"
    by (simp add: global_instance_def umap_find_def)
  show ?thesis
    using ok free addConverter_names [of Point2D global_instance] by simp
qed

text \<open>
  C10, as stated, fails in its last part: \<^verbatim>\<open>Point2D\<close>, registered after
  \<^verbatim>\<open>ns::Point2D\<close>, has its converters in both tables and no name that maps to its
  TypeId, since its only name \<^verbatim>\<open>"Point2D"\<close> was a key already.
\<close>

theorem no_name_mapping_counterexample:
  "snd (addConverter Point2D (register_all [ns_Point2D] global_instance)) = Ok () \<and>
   umap_find (typeid Point2D)
     (to_json_converters (register_all [ns_Point2D, Point2D] global_instance)) =
     Some (to_converter Point2D) \<and>
   umap_find (typeid Point2D)
     (from_json_converters (register_all [ns_Point2D, Point2D] global_instance)) =
     Some (from_converter Point2D) \<and>
   filter (\<lambda>kv. snd kv = typeid Point2D)
     (type_names (register_all [ns_Point2D, Point2D] global_instance)) = []"
  unfolding registry_ns_then_plain
  by (simp add: addConverter_Point2D umap_find_def Point2D_facts)

end
